theory Spec2Isabelle
  imports Main "HOL-Library.AList" "HOL-Library.Multiset"
begin

chapter \<open>Model\<close>

section \<open>Strings\<close>

text \<open>
  A JavaScript string is modelled as a \<^typ>\<open>string\<close>: a list of code units, of which the
  model covers those below 256. The white space of \<open>String.prototype.trim\<close> and of the
  regular expression class \<open>\s\<close> in that range is TAB, LF, VT, FF, CR, SPACE and NBSP.
\<close>

definition is_space :: "char \<Rightarrow> bool" where
  "is_space c = ((of_char c :: nat) \<in> {9, 10, 11, 12, 13, 32, 160})"

definition trim :: "string \<Rightarrow> string" where
  "trim s = rev (dropWhile is_space (rev (dropWhile is_space s)))"

definition trimRight :: "string \<Rightarrow> string" where
  "trimRight s = rev (dropWhile is_space (rev s))"

definition startsWith :: "string \<Rightarrow> string \<Rightarrow> bool" where
  "startsWith p s = (take (length p) s = p)"

definition endsWith :: "string \<Rightarrow> string \<Rightarrow> bool" where
  "endsWith e s = (length e \<le> length s \<and> drop (length s - length e) s = e)"

text \<open>The character class \<open>[a-zA-Z0-9-_ ]\<close> of \<open>renameSession\<close>.\<close>

definition allowedChar :: "char \<Rightarrow> bool" where
  "allowedChar c =
     (let n = (of_char c :: nat)
      in (97 \<le> n \<and> n \<le> 122) \<or> (65 \<le> n \<and> n \<le> 90) \<or> (48 \<le> n \<and> n \<le> 57)
         \<or> n = 45 \<or> n = 95 \<or> n = 32)"

text \<open>\<open>s.replace(/\s+/g, '-')\<close>: every maximal run of white space becomes one hyphen.\<close>

function replaceSpaceRuns :: "string \<Rightarrow> string" where
  "replaceSpaceRuns [] = []"
| "replaceSpaceRuns (c # cs) =
     (if is_space c then CHR ''-'' # replaceSpaceRuns (dropWhile is_space cs)
      else c # replaceSpaceRuns cs)"
  by pat_completeness auto
termination
  by (relation "measure length") (auto simp: le_imp_less_Suc length_dropWhile_le)

text \<open>
  \<open>newName.replace(/[^a-zA-Z0-9-_ ]/g, '').trim().replace(/\s+/g, '-')\<close>
\<close>

definition sanitize :: "string \<Rightarrow> string" where
  "sanitize newName = replaceSpaceRuns (trim (filter allowedChar newName))"

section \<open>Session store\<close>

text \<open>
  The \<open>Session\<close> interface, with the field \<open>id\<close> written \<open>sid\<close>. A message is a
  \<open>{role, content}\<close> object.
\<close>

record message =
  role :: string
  content :: string

record session =
  sid :: string
  filename :: string
  createdAt :: string
  messages :: "message list"

text \<open>
  The session directory is a list of named files in the order \<open>fs.readdir\<close> returns them;
  the names are plain file names. The text of a file fails \<open>JSON.parse\<close>, or is the JSON
  \<open>null\<close>, or parses to a \<open>Session\<close> object; \<open>JSON.stringify\<close> followed by \<open>JSON.parse\<close>
  gives the record back. \<open>JSON.parse\<close> accepts \<open>null\<close>, and reading a property of it throws
  a \<open>TypeError\<close>. A text that parses to anything else (a number, an object that lacks
  fields of a \<open>Session\<close>) is outside the model.

  Also outside the model: names with a path separator, which \<open>path.join\<close> resolves to
  places beyond the directory, and the failures of the disk itself (a name too long for
  the file system, a full disk): a read fails exactly when the file is absent, a write
  succeeds, a rename fails exactly when its source is absent. Where a new name appears in
  the order of \<open>fs.readdir\<close> depends on the file system; the model puts it last.
\<close>

datatype file_text = Unparsable | JsonNull | Json session

text \<open>What \<open>JSON.parse\<close> returns when it returns, and the exception of the model.\<close>

datatype parsed = Null | Rec session

datatype error = TypeError

type_synonym directory = "(string \<times> file_text) list"

text \<open>
  The \<open>SessionManager\<close> with the directory it works on. \<open>clockReads\<close> counts the
  evaluations of \<open>new Date()\<close> so far: the n-th one returns \<open>clock n\<close> as its ISO string,
  for a sequence \<open>clock\<close> of readings that the environment chooses.
\<close>

record store =
  currentSessionId :: "string option"
  files :: directory
  clockReads :: nat

text \<open>
  \<open>parseFile\<close> is \<open>JSON.parse(await fs.readFile(...))\<close>, \<open>None\<close> when either throws.
  \<open>readJson\<close> is the same inside a \<open>try\<close> block that goes on to read or set a property of
  the result (\<open>loadSession\<close>, \<open>logInteraction\<close>): there \<open>null\<close> ends in the \<open>catch\<close> as well.
\<close>

definition parseFile :: "string \<Rightarrow> directory \<Rightarrow> parsed option" where
  "parseFile name dir =
     (case map_of dir name of
        Some JsonNull \<Rightarrow> Some Null
      | Some (Json s) \<Rightarrow> Some (Rec s)
      | _ \<Rightarrow> None)"

definition readJson :: "string \<Rightarrow> directory \<Rightarrow> session option" where
  "readJson name dir = (case map_of dir name of Some (Json s) \<Rightarrow> Some s | _ \<Rightarrow> None)"

definition writeFile :: "string \<Rightarrow> file_text \<Rightarrow> directory \<Rightarrow> directory" where
  "writeFile name f dir = AList.update name f dir"

definition renameFile :: "string \<Rightarrow> string \<Rightarrow> directory \<Rightarrow> directory option" where
  "renameFile old new dir =
     (case map_of dir old of
        None \<Rightarrow> None
      | Some f \<Rightarrow> Some (if old = new then dir else AList.update new f (AList.delete old dir)))"

definition createSession :: "(nat \<Rightarrow> string) \<Rightarrow> store \<Rightarrow> string \<times> store" where
  "createSession clock st =
     (let timestamp = map (\<lambda>c. if c = CHR '':'' \<or> c = CHR ''.'' then CHR ''-'' else c)
                          (clock (clockReads st));
          ident = ''session-'' @ timestamp;
          fname = ident @ ''.json'';
          new = \<lparr>sid = ident, filename = fname,
                 createdAt = clock (Suc (clockReads st)), messages = []\<rparr>
      in (ident, st\<lparr>currentSessionId := Some ident,
                    files := writeFile fname (Json new) (files st),
                    clockReads := clockReads st + 2\<rparr>))"

text \<open>
  \<open>logInteraction\<close>: nothing happens without an active session (\<open>null\<close> or the empty
  string); a read or parse failure is logged and absorbed.
\<close>

definition logInteraction :: "message list \<Rightarrow> store \<Rightarrow> store" where
  "logInteraction msgs st =
     (case currentSessionId st of
        None \<Rightarrow> st
      | Some cur \<Rightarrow>
          if cur = [] then st
          else (case readJson (cur @ ''.json'') (files st) of
                  None \<Rightarrow> st
                | Some s \<Rightarrow>
                    st\<lparr>files := writeFile (cur @ ''.json'') (Json (s\<lparr>messages := msgs\<rparr>))
                                          (files st)\<rparr>))"

text \<open>
  \<open>new Date(s).getTime()\<close> is the parameter \<open>getTime\<close>, with \<open>None\<close> for \<open>NaN\<close>. The
  comparator of \<open>listSessions\<close> subtracts two of them; a \<open>NaN\<close> difference counts as 0 for
  \<open>Array.prototype.sort\<close>.
\<close>

definition compareSessions :: "(string \<Rightarrow> int option) \<Rightarrow> session \<Rightarrow> session \<Rightarrow> int" where
  "compareSessions getTime a b =
     (case (getTime (createdAt b), getTime (createdAt a)) of
        (Some tb, Some ta) \<Rightarrow> tb - ta
      | _ \<Rightarrow> 0)"

text \<open>
  The comparator called by \<open>sort\<close>: \<open>b.createdAt\<close> and \<open>a.createdAt\<close> throw when \<open>a\<close> or \<open>b\<close>
  is \<open>null\<close>.
\<close>

definition compareParsed :: "(string \<Rightarrow> int option) \<Rightarrow> parsed \<Rightarrow> parsed \<Rightarrow> error + int" where
  "compareParsed getTime a b =
     (case (a, b) of
        (Rec x, Rec y) \<Rightarrow> Inr (compareSessions getTime x y)
      | _ \<Rightarrow> Inl TypeError)"

text \<open>
  \<open>Array.prototype.sort\<close> is stable, and an exception of the comparator leaves it. It is
  modelled as the stable insertion sort, which compares every element of a list of two
  or more. The language leaves the order open when the comparator is not consistent,
  which can only happen here when some \<open>createdAt\<close> is not a date; engines differ there.
\<close>

fun insertParsed :: "(string \<Rightarrow> int option) \<Rightarrow> parsed \<Rightarrow> parsed list \<Rightarrow> error + parsed list" where
  "insertParsed getTime x [] = Inr [x]"
| "insertParsed getTime x (y # ys) =
     (case compareParsed getTime x y of
        Inl e \<Rightarrow> Inl e
      | Inr n \<Rightarrow>
          if n \<le> 0 then Inr (x # y # ys)
          else (case insertParsed getTime x ys of
                  Inl e \<Rightarrow> Inl e
                | Inr zs \<Rightarrow> Inr (y # zs)))"

fun sortParsed :: "(string \<Rightarrow> int option) \<Rightarrow> parsed list \<Rightarrow> error + parsed list" where
  "sortParsed getTime [] = Inr []"
| "sortParsed getTime (x # xs) =
     (case sortParsed getTime xs of
        Inl e \<Rightarrow> Inl e
      | Inr ys \<Rightarrow> insertParsed getTime x ys)"

fun readSessions :: "directory \<Rightarrow> string list \<Rightarrow> parsed list" where
  "readSessions dir [] = []"
| "readSessions dir (name # rest) =
     (if endsWith ''.json'' name
      then (case parseFile name dir of
              Some v \<Rightarrow> v # readSessions dir rest
            | None \<Rightarrow> readSessions dir rest)
      else readSessions dir rest)"

definition listSessions :: "(string \<Rightarrow> int option) \<Rightarrow> store \<Rightarrow> error + parsed list" where
  "listSessions getTime st =
     sortParsed getTime (readSessions (files st) (map fst (files st)))"

text \<open>The session objects of a list of parsed values.\<close>

fun records :: "parsed list \<Rightarrow> session list" where
  "records [] = []"
| "records (Null # rest) = records rest"
| "records (Rec s # rest) = s # records rest"

text \<open>The file name \<open>loadSession\<close> tries first: its argument, with \<open>.json\<close> added if missing.\<close>

definition sessionFile :: "string \<Rightarrow> string" where
  "sessionFile filenameOrId =
     (if endsWith ''.json'' filenameOrId then filenameOrId else filenameOrId @ ''.json'')"

text \<open>\<open>sessions.find(s => ...)\<close>: the callback reads \<open>s.id\<close>, which throws on \<open>null\<close>.\<close>

fun findSession :: "(session \<Rightarrow> bool) \<Rightarrow> parsed list \<Rightarrow> error + session option" where
  "findSession P [] = Inr None"
| "findSession P (Null # rest) = Inl TypeError"
| "findSession P (Rec s # rest) = (if P s then Inr (Some s) else findSession P rest)"

text \<open>
  \<open>loadSession\<close>. The file is looked up among the files of the directory, which is what
  \<open>path.join(SESSION_DIR, filename)\<close> reaches for a plain name; an identifier with a path
  separator is outside the model. The search by id stands in the \<open>catch\<close> block, so what
  \<open>listSessions\<close> or the callback of \<open>find\<close> throws leaves \<open>loadSession\<close>; nothing was
  changed by then.
\<close>

definition loadSession ::
  "(string \<Rightarrow> int option) \<Rightarrow> string \<Rightarrow> store \<Rightarrow> error + session option \<times> store" where
  "loadSession getTime filenameOrId st =
     (let fname = sessionFile filenameOrId
      in case readJson fname (files st) of
           Some s \<Rightarrow> Inr (Some s, st\<lparr>currentSessionId := Some (sid s)\<rparr>)
         | None \<Rightarrow>
             (case listSessions getTime st of
                Inl e \<Rightarrow> Inl e
              | Inr sessions \<Rightarrow>
                  (case findSession (\<lambda>s. sid s = filenameOrId \<or> filename s = filenameOrId
                                          \<or> filename s = fname) sessions of
                     Inl e \<Rightarrow> Inl e
                   | Inr (Some s) \<Rightarrow> Inr (Some s, st\<lparr>currentSessionId := Some (sid s)\<rparr>)
                   | Inr None \<Rightarrow> Inr (None, st))))"

text \<open>
  \<open>renameSession\<close>. The call of \<open>loadSession\<close> stands before the \<open>try\<close>: what it throws
  leaves \<open>renameSession\<close>. The comparison with \<open>session.id\<close> that guards the update of the
  active session comes after \<open>session.id = newId\<close>, so it reads the new id.
\<close>

definition renameSession ::
  "(string \<Rightarrow> int option) \<Rightarrow> string \<Rightarrow> string \<Rightarrow> store \<Rightarrow> error + bool \<times> store" where
  "renameSession getTime oldIdOrFilename newName st =
     (case loadSession getTime oldIdOrFilename st of
        Inl e \<Rightarrow> Inl e
      | Inr (None, st1) \<Rightarrow> Inr (False, st1)
      | Inr (Some loaded, st1) \<Rightarrow>
          (let oldPath = filename loaded;
               sanitized = sanitize newName;
               newFilename = sanitized @ ''.json'';
               s1 = loaded\<lparr>filename := newFilename\<rparr>;
               d1 = writeFile oldPath (Json s1) (files st1)
           in case renameFile oldPath newFilename d1 of
                None \<Rightarrow> Inr (False, st1\<lparr>files := d1\<rparr>)
              | Some d2 \<Rightarrow>
                  (let newId = sanitized;
                       s2 = s1\<lparr>sid := newId\<rparr>;
                       d3 = writeFile newFilename (Json s2) d2;
                       st2 = st1\<lparr>files := d3\<rparr>
                   in if currentSessionId st2 = Some oldIdOrFilename
                         \<or> currentSessionId st2 = Some (sid s2)
                      then Inr (True, st2\<lparr>currentSessionId := Some newId\<rparr>)
                      else Inr (True, st2))))"

section \<open>Chat turn driver\<close>

text \<open>
  \<open>afterClose s\<close> is what follows the first \<open></think>\<close> in \<open>s\<close>, if there is one: where
  the lazy \<open>[\s\S]*?</think>\<close> stops.
\<close>

fun afterClose :: "string \<Rightarrow> string option" where
  "afterClose [] = None"
| "afterClose (c # cs) =
     (if startsWith ''</think>'' (c # cs) then Some (drop 8 (c # cs)) else afterClose cs)"

fun beforeClose :: "string \<Rightarrow> string" where
  "beforeClose [] = []"
| "beforeClose (c # cs) =
     (if startsWith ''</think>'' (c # cs) then [] else c # beforeClose cs)"

lemma afterClose_length: "afterClose s = Some r \<Longrightarrow> length r \<le> length s"
  by (induction s) (auto split: if_splits)

text \<open>\<open>responseText.replace(/<think>[\s\S]*?<\/think>/g, '')\<close>\<close>

function stripThink :: "string \<Rightarrow> string" where
  "stripThink [] = []"
| "stripThink (c # cs) =
     (if startsWith ''<think>'' (c # cs)
      then (case afterClose (drop 7 (c # cs)) of
              Some rest \<Rightarrow> stripThink rest
            | None \<Rightarrow> c # stripThink cs)
      else c # stripThink cs)"
  by pat_completeness auto
termination
proof (relation "measure length")
  fix c cs rest
  assume "afterClose (drop 7 (c # cs)) = Some rest"
  then have "length rest \<le> length (drop 7 (c # cs))"
    by (rule afterClose_length)
  then show "(rest, c # cs) \<in> measure length"
    by simp
qed simp_all

definition newline :: char where
  "newline = CHR 0x0A"

text \<open>\<open>content.split('\n')\<close> and \<open>lines.join(sep)\<close>\<close>

fun splitLines :: "string \<Rightarrow> string list" where
  "splitLines [] = [[]]"
| "splitLines (c # cs) =
     (if c = newline then [] # splitLines cs
      else (case splitLines cs of
              l # ls \<Rightarrow> (c # l) # ls
            | [] \<Rightarrow> [[c]]))"

fun joinWith :: "string \<Rightarrow> string list \<Rightarrow> string" where
  "joinWith sep [] = []"
| "joinWith sep [x] = x"
| "joinWith sep (x # y # ys) = x @ sep @ joinWith sep (y # ys)"

text \<open>
  The callback of the first \<open>replace\<close> in the chat turn: the thinking text is cut to its
  least indentation over the lines that are not blank, each line trimmed on the right,
  and quoted.
\<close>

definition quoteThinking :: "string \<Rightarrow> string" where
  "quoteThinking body =
     (let ls = splitLines body;
          indents = map (\<lambda>l. length (takeWhile is_space l)) (filter (\<lambda>l. trim l \<noteq> []) ls);
          minIndent = (case indents of [] \<Rightarrow> 0 | i # rest \<Rightarrow> fold min rest i);
          processedLines = map (\<lambda>l. trimRight (drop minIndent l)) ls;
          excerpt = joinWith (newline # ''> '') processedLines
      in newline # ''> **Thinking Process:**'' @ newline # ''> '' @ excerpt
         @ [newline, newline] @ ''---'' @ [newline, newline] @ ''**Response:**''
         @ [newline, newline])"

text \<open>\<open>responseText.replace(/^\s*<think>([\s\S]*?)<\/think>/, ...)\<close>\<close>

definition formatResponse :: "string \<Rightarrow> string" where
  "formatResponse responseText =
     (let t = dropWhile is_space responseText
      in if startsWith ''<think>'' t
         then (case afterClose (drop 7 t) of
                 Some rest \<Rightarrow> quoteThinking (beforeClose (drop 7 t)) @ rest
               | None \<Rightarrow> responseText)
         else responseText)"

text \<open>
  The generation collaborator is a function from the transcript to what
  \<open>agent.generate\<close> does: it rejects, or it resolves to a result with its \<open>text\<close> and
  \<open>reasoningText\<close>, either of which may be missing. Tool calls the agent makes while it
  generates are outside the model. \<open>marked.parse\<close> is the parameter \<open>render\<close>, \<open>None\<close>
  when it throws.
\<close>

datatype generation = Rejects | Generated "string option" "string option"

type_synonym agent = "message list \<Rightarrow> generation"

definition truthy :: "string option \<Rightarrow> bool" where
  "truthy v = (case v of None \<Rightarrow> False | Some s \<Rightarrow> s \<noteq> [])"

text \<open>
  What a handler prints or calls, in order. The prompt written again after each line is
  left out.
\<close>

datatype effect =
    PrintHelp
  | ContextCleared
  | PrintHistory "(string \<times> string \<times> nat) list"
  | PrintLoaded string "(string \<times> string) list"
  | PrintNotFound string
  | PrintRenameUsage
  | PrintRenamed string
  | PrintRenameFailed
  | PrintNoActiveSession
  | PrintThinking
  | Generate "message list"
  | WarnEmptyResponse
  | PrintRendered string
  | PrintGenerationError
  | PrintGoodbye

record chat =
  transcript :: "message list"
  manager :: store

text \<open>
  The \<open>try\<close> block of the line handler. Everything after the first \<open>logInteraction\<close> sits
  in one \<open>try\<close>: a rejected generation, a missing response text (\<open>replace\<close> of
  \<open>undefined\<close>) and a throwing \<open>marked.parse\<close> all end in the same \<open>catch\<close>, before the
  assistant turn is pushed.
\<close>

text \<open>
  \<open>let responseText = result.text; if (!responseText && result.reasoningText)
  responseText = result.reasoningText\<close>
\<close>

definition pickResponseText :: "string option \<Rightarrow> string option \<Rightarrow> string option" where
  "pickResponseText resultText reasoningText =
     (if \<not> truthy resultText \<and> truthy reasoningText then reasoningText else resultText)"

text \<open>
  \<open>const historyContent = responseText.replace(/<think>[\s\S]*?<\/think>/g, '').trim()\<close>
  and the content \<open>historyContent || responseText\<close> of the assistant turn.
\<close>

definition historyContent :: "string \<Rightarrow> string" where
  "historyContent responseText = trim (stripThink responseText)"

definition assistantTurn :: "string \<Rightarrow> message" where
  "assistantTurn responseText =
     \<lparr>role = ''assistant'',
      content = (if historyContent responseText \<noteq> [] then historyContent responseText
                 else responseText)\<rparr>"

definition userTurn :: "string \<Rightarrow> message" where
  "userTurn input = \<lparr>role = ''user'', content = input\<rparr>"

definition chatTurn :: "agent \<Rightarrow> (string \<Rightarrow> string option) \<Rightarrow> string \<Rightarrow> chat \<Rightarrow> chat \<times> effect list" where
  "chatTurn agent render input c =
     (let msgs1 = transcript c @ [userTurn input];
          st1 = logInteraction msgs1 (manager c);
          c1 = \<lparr>transcript = msgs1, manager = st1\<rparr>
      in case agent msgs1 of
           Rejects \<Rightarrow> (c1, [PrintThinking, Generate msgs1, PrintGenerationError])
         | Generated resultText reasoningText \<Rightarrow>
             (let responseText = pickResponseText resultText reasoningText;
                  warn = (if truthy responseText then [] else [WarnEmptyResponse])
              in case responseText of
                   None \<Rightarrow>
                     (c1, [PrintThinking, Generate msgs1] @ warn @ [PrintGenerationError])
                 | Some r \<Rightarrow>
                     (case render (formatResponse r) of
                        None \<Rightarrow>
                          (c1, [PrintThinking, Generate msgs1] @ warn @ [PrintGenerationError])
                      | Some rendered \<Rightarrow>
                          (let msgs2 = msgs1 @ [assistantTurn r];
                               st2 = logInteraction msgs2 st1
                           in (\<lparr>transcript = msgs2, manager = st2\<rparr>,
                               [PrintThinking, Generate msgs1] @ warn
                               @ [PrintRendered rendered])))))"

section \<open>Command router\<close>

datatype action = Quit | Configure

text \<open>
  The listener of the \<open>line\<close> event. Its first result is \<open>Inr (Some a)\<close> when it resolves
  the promise of \<open>runChatSession\<close> with \<open>a\<close>, \<open>Inr None\<close> when it returns and the prompt is
  shown again, and \<open>Inl e\<close> when \<open>e\<close> leaves the listener: nothing handles the rejection of
  an \<open>async\<close> listener, and the model reads no further line then.
\<close>

definition handleLine ::
  "(nat \<Rightarrow> string) \<Rightarrow> (string \<Rightarrow> int option) \<Rightarrow> agent \<Rightarrow> (string \<Rightarrow> string option)
   \<Rightarrow> string \<Rightarrow> chat \<Rightarrow> (error + action option) \<times> chat \<times> effect list" where
  "handleLine clock getTime agent render ln c =
     (let input = trim ln
      in if input = ''exit'' \<or> input = ''quit'' \<or> input = ''/exit'' \<or> input = ''/quit''
         then (Inr (Some Quit), c, [])
         else if input = ''/config'' then (Inr (Some Configure), c, [])
         else if input = ''/help'' then (Inr None, c, [PrintHelp])
         else if input = ''/clear''
         then (Inr None, \<lparr>transcript = [], manager = snd (createSession clock (manager c))\<rparr>,
               [ContextCleared])
         else if input = ''/history''
         then (case listSessions getTime (manager c) of
                 Inl e \<Rightarrow> (Inl e, c, [])
               | Inr sessions \<Rightarrow>
                   if Null \<in> set (take 10 sessions) then (Inl TypeError, c, [])
                   else (Inr None, c,
                         [PrintHistory (map (\<lambda>s. (sid s, createdAt s, length (messages s)))
                                            (records (take 10 sessions)))]))
         else if startsWith ''/load '' input
         then (let sessionId = trim (drop 6 input)
               in case loadSession getTime sessionId (manager c) of
                    Inl e \<Rightarrow> (Inl e, c, [])
                  | Inr (Some s, st) \<Rightarrow>
                      (Inr None, \<lparr>transcript = messages s, manager = st\<rparr>,
                       [PrintLoaded (sid s)
                          (map (\<lambda>m. (role m, take 50 (content m)))
                               (drop (length (messages s) - 2) (messages s)))])
                  | Inr (None, st) \<Rightarrow> (Inr None, c\<lparr>manager := st\<rparr>, [PrintNotFound sessionId]))
         else if startsWith ''/rename '' input
         then (let newName = trim (drop 8 input)
               in if newName = [] then (Inr None, c, [PrintRenameUsage])
                  else (case currentSessionId (manager c) of
                          None \<Rightarrow> (Inr None, c, [PrintNoActiveSession])
                        | Some currentId \<Rightarrow>
                            if currentId = [] then (Inr None, c, [PrintNoActiveSession])
                            else (case renameSession getTime currentId newName (manager c) of
                                    Inl e \<Rightarrow> (Inl e, c, [])
                                  | Inr (True, st) \<Rightarrow>
                                      (Inr None, c\<lparr>manager := st\<rparr>, [PrintRenamed newName])
                                  | Inr (False, st) \<Rightarrow>
                                      (Inr None, c\<lparr>manager := st\<rparr>, [PrintRenameFailed]))))
         else if input = [] then (Inr None, c, [])
         else (case chatTurn agent render input c of (c', out) \<Rightarrow> (Inr None, c', out)))"

text \<open>
  \<open>runChatSession\<close>: a fresh transcript, then one line after the other until a handler
  resolves the promise or an exception leaves it. With no line left the session waits
  for input: no action.
\<close>

fun runLines ::
  "(nat \<Rightarrow> string) \<Rightarrow> (string \<Rightarrow> int option) \<Rightarrow> agent \<Rightarrow> (string \<Rightarrow> string option)
   \<Rightarrow> string list \<Rightarrow> chat \<Rightarrow> (error + action option) \<times> chat \<times> effect list" where
  "runLines clock getTime agent render [] c = (Inr None, c, [])"
| "runLines clock getTime agent render (ln # rest) c =
     (case handleLine clock getTime agent render ln c of
        (Inl e, c', out) \<Rightarrow> (Inl e, c', out)
      | (Inr (Some a), c', out) \<Rightarrow> (Inr (Some a), c', out)
      | (Inr None, c', out) \<Rightarrow>
          (case runLines clock getTime agent render rest c' of
             (a, c'', out') \<Rightarrow> (a, c'', out @ out')))"

definition runChatSession ::
  "(nat \<Rightarrow> string) \<Rightarrow> (string \<Rightarrow> int option) \<Rightarrow> agent \<Rightarrow> (string \<Rightarrow> string option)
   \<Rightarrow> string list \<Rightarrow> store \<Rightarrow> (error + action option) \<times> chat \<times> effect list" where
  "runChatSession clock getTime agent render lns st =
     runLines clock getTime agent render lns \<lparr>transcript = [], manager = st\<rparr>"

section \<open>Application loop\<close>

text \<open>
  One pass of the \<open>while (true)\<close> of \<open>main\<close>: whether the connection check ends connected
  (or the user quits there), the agent built from the current configuration, and the
  lines typed into the chat session.
\<close>

record round =
  connected :: bool
  roundAgent :: agent
  typed :: "string list"

datatype outcome = Exited | Waiting | Uncaught error

fun mainLoop ::
  "(nat \<Rightarrow> string) \<Rightarrow> (string \<Rightarrow> int option) \<Rightarrow> (string \<Rightarrow> string option)
   \<Rightarrow> round list \<Rightarrow> store \<Rightarrow> outcome \<times> store \<times> effect list" where
  "mainLoop clock getTime render [] st = (Waiting, st, [])"
| "mainLoop clock getTime render (r # rs) st =
     (if \<not> connected r then (Exited, st, [PrintGoodbye])
      else (case runChatSession clock getTime (roundAgent r) render (typed r) st of
              (Inl e, c, out) \<Rightarrow> (Uncaught e, manager c, out)
            | (Inr (Some Quit), c, out) \<Rightarrow> (Exited, manager c, out @ [PrintGoodbye])
            | (Inr (Some Configure), c, out) \<Rightarrow>
                (case mainLoop clock getTime render rs (manager c) of
                   (res, st', out') \<Rightarrow> (res, st', out @ out'))
            | (Inr None, c, out) \<Rightarrow> (Waiting, manager c, out)))"

text \<open>\<open>main\<close>: the one \<open>createSession\<close> call stands before the loop.\<close>

definition main ::
  "(nat \<Rightarrow> string) \<Rightarrow> (string \<Rightarrow> int option) \<Rightarrow> (string \<Rightarrow> string option)
   \<Rightarrow> round list \<Rightarrow> store \<Rightarrow> outcome \<times> store \<times> effect list" where
  "main clock getTime render rounds st =
     mainLoop clock getTime render rounds (snd (createSession clock st))"

section \<open>Suggestion engine\<close>

definition COMMANDS :: "string list" where
  "COMMANDS = [''/help'', ''/config'', ''/clear'', ''/history'', ''/load '', ''/rename '',
               ''/exit'', ''/quit'']"

text \<open>
  The variables the patched \<open>_refreshLine\<close> closes over, the line and cursor of the
  readline interface, and the timers of the event loop: \<open>pendingTimers\<close> are the timeouts
  set and neither cleared nor fired, \<open>nextTimer\<close> the handle the next \<open>setTimeout\<close>
  returns.
\<close>

record ghost =
  inputLine :: string
  cursor :: nat
  suggestion :: string
  rootSuggestionTimer :: "nat option"
  showRootSuggestion :: bool
  pendingTimers :: "nat list"
  nextTimer :: nat

definition refreshLine :: "ghost \<Rightarrow> ghost" where
  "refreshLine g0 =
     (let g = g0\<lparr>suggestion := [],
                 pendingTimers := (case rootSuggestionTimer g0 of
                                     None \<Rightarrow> pendingTimers g0
                                   | Some t \<Rightarrow> removeAll t (pendingTimers g0)),
                 rootSuggestionTimer := None\<rparr>;
          ln = inputLine g
      in if length ln > 0 \<and> startsWith ''/'' ln \<and> cursor g = length ln
         then (if length ln = 1
               then (if showRootSuggestion g
                     then g\<lparr>suggestion := drop (length ln) (hd COMMANDS)\<rparr>
                     else g\<lparr>rootSuggestionTimer := Some (nextTimer g),
                            pendingTimers := pendingTimers g @ [nextTimer g],
                            nextTimer := Suc (nextTimer g)\<rparr>)
               else (case find (\<lambda>c. startsWith ln c \<and> c \<noteq> ln) COMMANDS of
                       Some m \<Rightarrow> g\<lparr>suggestion := drop (length ln) m\<rparr>
                     | None \<Rightarrow> g))
         else g\<lparr>showRootSuggestion := False\<rparr>)"

text \<open>
  The events: readline refreshes the line (after a key changed it to the given line and
  cursor), or the timeout with the given handle expires. A timeout that was cleared
  never fires; the callback of one that fires sets the latch and refreshes.
\<close>

datatype event = Refresh string nat | TimerFires nat

fun step :: "ghost \<Rightarrow> event \<Rightarrow> ghost" where
  "step g (Refresh ln cur) = refreshLine (g\<lparr>inputLine := ln, cursor := cur\<rparr>)"
| "step g (TimerFires t) =
     (if t \<in> set (pendingTimers g)
      then refreshLine (g\<lparr>pendingTimers := removeAll t (pendingTimers g),
                          showRootSuggestion := True\<rparr>)
      else g)"

definition initialGhost :: ghost where
  "initialGhost = \<lparr>inputLine = [], cursor = 0, suggestion = [], rootSuggestionTimer = None,
                   showRootSuggestion = False, pendingTimers = [], nextTimer = 0\<rparr>"

definition runEvents :: "ghost \<Rightarrow> event list \<Rightarrow> ghost" where
  "runEvents g es = foldl step g es"


section \<open>Properties of the store, stated\<close>

text \<open>
  Every file of the directory that parses holds a record whose \<open>id\<close> is the file name
  without its \<open>.json\<close>.
\<close>

definition idMatchesKey :: "directory \<Rightarrow> bool" where
  "idMatchesKey dir =
     list_all (\<lambda>name. case readJson name dir of
                        Some s \<Rightarrow> name = sid s @ ''.json''
                      | None \<Rightarrow> True)
              (map fst dir)"

text \<open>
  The directories the store itself writes: besides the above, the \<open>filename\<close> field of a
  record is the name of its file, and no \<open>id\<close> ends in \<open>.json\<close>.
\<close>

definition storeWritten :: "directory \<Rightarrow> bool" where
  "storeWritten dir =
     list_all (\<lambda>name. case readJson name dir of
                        Some s \<Rightarrow> name = sid s @ ''.json'' \<and> filename s = name
                                  \<and> \<not> endsWith ''.json'' (sid s)
                      | None \<Rightarrow> True)
              (map fst dir)"

text \<open>Some \<open>.json\<close> file of the directory holds the JSON \<open>null\<close>.\<close>

definition nullListed :: "directory \<Rightarrow> bool" where
  "nullListed dir =
     list_ex (\<lambda>name. endsWith ''.json'' name \<and> parseFile name dir = Some Null) (map fst dir)"

text \<open>
  The four operations of the store that the chat uses, as one step function. An operation
  that throws has changed nothing.
\<close>

datatype storeOp = Create | Append "message list" | Load string | Rename string string

fun applyOp :: "(nat \<Rightarrow> string) \<Rightarrow> (string \<Rightarrow> int option) \<Rightarrow> store \<Rightarrow> storeOp \<Rightarrow> store" where
  "applyOp clock getTime st Create = snd (createSession clock st)"
| "applyOp clock getTime st (Append msgs) = logInteraction msgs st"
| "applyOp clock getTime st (Load ident) =
     (case loadSession getTime ident st of Inl e \<Rightarrow> st | Inr (found, st') \<Rightarrow> st')"
| "applyOp clock getTime st (Rename ident newName) =
     (case renameSession getTime ident newName st of Inl e \<Rightarrow> st | Inr (ok, st') \<Rightarrow> st')"

text \<open>
  Newest first: of two records that both carry a date, the earlier in the list is not
  the older one. A record without a date constrains nothing.
\<close>

definition newerOrSame :: "(string \<Rightarrow> int option) \<Rightarrow> session \<Rightarrow> session \<Rightarrow> bool" where
  "newerOrSame getTime a b =
     (case (getTime (createdAt a), getTime (createdAt b)) of
        (Some ta, Some tb) \<Rightarrow> tb \<le> ta
      | _ \<Rightarrow> True)"

definition descendingByCreatedAt :: "(string \<Rightarrow> int option) \<Rightarrow> session list \<Rightarrow> bool" where
  "descendingByCreatedAt getTime xs = sorted_wrt (newerOrSame getTime) xs"

text \<open>Every record of the list has a \<open>createdAt\<close> that is a date.\<close>

definition allDated :: "(string \<Rightarrow> int option) \<Rightarrow> session list \<Rightarrow> bool" where
  "allDated getTime xs = list_all (\<lambda>s. getTime (createdAt s) \<noteq> None) xs"

section \<open>Properties of the suggestion engine, stated\<close>

text \<open>
  What holds of the suggestion state after any events: an outstanding timer is the one
  in \<open>rootSuggestionTimer\<close> and was handed out before \<open>nextTimer\<close>, and while it is
  outstanding the latch is down, no suggestion is shown and the line is the bare prefix.
\<close>

definition ghostInv :: "ghost \<Rightarrow> bool" where
  "ghostInv g =
     ((pendingTimers g = []
       \<or> (\<exists>t. pendingTimers g = [t] \<and> rootSuggestionTimer g = Some t \<and> t < nextTimer g
              \<and> \<not> showRootSuggestion g \<and> suggestion g = []
              \<and> inputLine g = ''/'' \<and> cursor g = 1)))"

definition activeCondition :: "string \<Rightarrow> nat \<Rightarrow> bool" where
  "activeCondition ln cur = (ln \<noteq> [] \<and> startsWith ''/'' ln \<and> cur = length ln)"

fun isRefresh :: "event \<Rightarrow> bool" where
  "isRefresh (Refresh ln cur) = True"
| "isRefresh (TimerFires t) = False"

section \<open>Sample inputs\<close>

definition demoClock :: "nat \<Rightarrow> string" where
  "demoClock n = (if n < 2 then ''2024-05-01T10:00:00.000Z'' else ''2024-05-01T10:00:01.000Z'')"

definition demoTime :: "string \<Rightarrow> int option" where
  "demoTime s = (if s = ''2024-05-01T10:00:00.000Z'' then Some 1714557600000
                 else if s = ''2024-05-01T10:00:01.000Z'' then Some 1714557601000
                 else None)"

definition demoAgent :: agent where
  "demoAgent msgs = Generated (Some ''<think>plan</think>Hello'') None"

definition demoRender :: "string \<Rightarrow> string option" where
  "demoRender s = Some s"

definition failingRender :: "string \<Rightarrow> string option" where
  "failingRender s = None"

definition emptyStore :: store where
  "emptyStore = \<lparr>currentSessionId = None, files = [], clockReads = 0\<rparr>"

text \<open>Two sessions, the first one active, beside a file that does not parse.\<close>

definition demoStore :: store where
  "demoStore =
     \<lparr>currentSessionId = Some ''alpha'',
      files = [(''alpha.json'',
                Json \<lparr>sid = ''alpha'', filename = ''alpha.json'',
                      createdAt = ''2024-05-01T10:00:00.000Z'',
                      messages = [\<lparr>role = ''user'', content = ''hi''\<rparr>,
                                  \<lparr>role = ''assistant'', content = ''Hello''\<rparr>]\<rparr>),
               (''notes.json'', Unparsable),
               (''beta.json'',
                Json \<lparr>sid = ''beta'', filename = ''beta.json'',
                      createdAt = ''2024-05-01T10:00:01.000Z'', messages = []\<rparr>)],
      clockReads = 0\<rparr>"

definition demoOps :: "storeOp list" where
  "demoOps = [Create, Append [\<lparr>role = ''user'', content = ''hi''\<rparr>],
              Rename ''beta'' ''Trip Planning'', Load ''alpha'']"

text \<open>
  Three records that parse, the second with a \<open>createdAt\<close> that is not a date, the third
  newer than the first.
\<close>

definition undatedStore :: store where
  "undatedStore =
     \<lparr>currentSessionId = None,
      files = [(''a.json'', Json \<lparr>sid = ''a'', filename = ''a.json'',
                                   createdAt = ''2024-05-01T10:00:00.000Z'', messages = []\<rparr>),
               (''b.json'', Json \<lparr>sid = ''b'', filename = ''b.json'',
                                   createdAt = ''yesterday'', messages = []\<rparr>),
               (''c.json'', Json \<lparr>sid = ''c'', filename = ''c.json'',
                                   createdAt = ''2024-05-01T10:00:01.000Z'', messages = []\<rparr>)],
      clockReads = 0\<rparr>"

text \<open>A store whose one session already has the id that \<open>My Name!\<close> sanitizes to.\<close>

definition sameNameStore :: store where
  "sameNameStore =
     \<lparr>currentSessionId = Some ''My-Name'',
      files = [(''My-Name.json'',
                Json \<lparr>sid = ''My-Name'', filename = ''My-Name.json'',
                      createdAt = ''2024-05-01T10:00:00.000Z'', messages = []\<rparr>)],
      clockReads = 2\<rparr>"

definition demoChat :: chat where
  "demoChat = \<lparr>transcript = [\<lparr>role = ''user'', content = ''hi''\<rparr>,
                             \<lparr>role = ''assistant'', content = ''Hello''\<rparr>],
               manager = demoStore\<rparr>"

text \<open>The chat right after start-up: one fresh session, an empty transcript.\<close>

definition freshChat :: chat where
  "freshChat = \<lparr>transcript = [], manager = snd (createSession demoClock emptyStore)\<rparr>"

text \<open>
  Two passes of the application loop: a chat line and \<open>/config\<close>, then one chat line
  in the chat session after the reconfiguration. \<open>firstRound\<close> is the first pass alone.
\<close>

definition firstRound :: "round list" where
  "firstRound = [\<lparr>connected = True, roundAgent = demoAgent, typed = [''hi'', ''/config'']\<rparr>]"

definition reconfigureRounds :: "round list" where
  "reconfigureRounds =
     firstRound @ [\<lparr>connected = True, roundAgent = demoAgent, typed = [''yo'']\<rparr>]"

definition clearLines :: "round list" where
  "clearLines = [\<lparr>connected = True, roundAgent = demoAgent, typed = [''hi'', ''/clear'', ''yo'']\<rparr>]"

text \<open>
  A session beside a file that holds \<open>null\<close>, and the same file alone.
\<close>

definition nullStore :: store where
  "nullStore =
     \<lparr>currentSessionId = Some ''alpha'',
      files = [(''alpha.json'',
                Json \<lparr>sid = ''alpha'', filename = ''alpha.json'',
                      createdAt = ''2024-05-01T10:00:00.000Z'', messages = []\<rparr>),
               (''broken.json'', JsonNull)],
      clockReads = 2\<rparr>"

text \<open>The sample store after \<open>alpha\<close> was renamed to \<open>My Name!\<close>.\<close>

definition renamedStore :: store where
  "renamedStore =
     \<lparr>currentSessionId = Some ''My-Name'',
      files = [(''notes.json'', Unparsable),
               (''beta.json'',
                Json \<lparr>sid = ''beta'', filename = ''beta.json'',
                      createdAt = ''2024-05-01T10:00:01.000Z'', messages = []\<rparr>),
               (''My-Name.json'',
                Json \<lparr>sid = ''My-Name'', filename = ''My-Name.json'',
                      createdAt = ''2024-05-01T10:00:00.000Z'',
                      messages = [\<lparr>role = ''user'', content = ''hi''\<rparr>,
                                  \<lparr>role = ''assistant'', content = ''Hello''\<rparr>]\<rparr>)],
      clockReads = 0\<rparr>"

text \<open>
  A chat on the session \<open>beta\<close>, in a directory where the record \<open>alpha\<close> carries another
  name than that of its file in its \<open>filename\<close> field.
\<close>

definition staleChat :: chat where
  "staleChat =
     \<lparr>transcript = [\<lparr>role = ''user'', content = ''yo''\<rparr>],
      manager =
        \<lparr>currentSessionId = Some ''beta'',
         files = [(''alpha.json'',
                   Json \<lparr>sid = ''alpha'', filename = ''ghost.json'',
                         createdAt = ''2024-05-01T10:00:00.000Z'',
                         messages = [\<lparr>role = ''user'', content = ''hi''\<rparr>,
                                     \<lparr>role = ''assistant'', content = ''Hello''\<rparr>]\<rparr>),
                  (''beta.json'',
                   Json \<lparr>sid = ''beta'', filename = ''beta.json'',
                         createdAt = ''2024-05-01T10:00:01.000Z'',
                         messages = [\<lparr>role = ''user'', content = ''yo''\<rparr>]\<rparr>)],
         clockReads = 4\<rparr>\<rparr>"

chapter \<open>Verification\<close>

section \<open>The store: reading what was written\<close>

lemma readJson_listed: "readJson name dir = Some s \<Longrightarrow> name \<in> set (map fst dir)"
  by (auto simp: readJson_def split: option.splits file_text.splits
           dest!: map_of_SomeD intro: rev_image_eqI)

lemma parseFile_listed: "parseFile name dir = Some v \<Longrightarrow> name \<in> set (map fst dir)"
  by (auto simp: parseFile_def split: option.splits file_text.splits
           dest!: map_of_SomeD intro: rev_image_eqI)

lemma parseFile_Rec: "parseFile name dir = Some (Rec s) \<longleftrightarrow> readJson name dir = Some s"
  by (auto simp: parseFile_def readJson_def split: option.splits file_text.splits)

lemma readJson_map_of: "map_of d1 = map_of d2 \<Longrightarrow> readJson n d1 = readJson n d2"
  by (simp add: readJson_def)

lemma map_of_writeFile: "map_of (writeFile name f dir) = (map_of dir)(name \<mapsto> f)"
  by (simp add: writeFile_def update_conv')

lemma readJson_writeFile:
  "readJson n (writeFile name f dir) =
     (if n = name then (case f of Json s \<Rightarrow> Some s | _ \<Rightarrow> None) else readJson n dir)"
  by (simp add: readJson_def map_of_writeFile split: file_text.splits)

lemma createSession_files:
  "files (snd (createSession clock st)) =
     writeFile (fst (createSession clock st) @ ''.json'')
       (Json \<lparr>sid = fst (createSession clock st),
              filename = fst (createSession clock st) @ ''.json'',
              createdAt = clock (Suc (clockReads st)), messages = []\<rparr>) (files st)"
  by (simp add: createSession_def Let_def)

lemma createSession_current:
  "currentSessionId (snd (createSession clock st)) = Some (fst (createSession clock st))"
  by (simp add: createSession_def Let_def)

lemma logInteraction_files:
  "files (logInteraction msgs st) =
     (case currentSessionId st of
        None \<Rightarrow> files st
      | Some cur \<Rightarrow>
          (case readJson (cur @ ''.json'') (files st) of
             None \<Rightarrow> files st
           | Some s \<Rightarrow> if cur = [] then files st
                       else writeFile (cur @ ''.json'') (Json (s\<lparr>messages := msgs\<rparr>)) (files st)))"
  by (simp add: logInteraction_def split: option.splits)

lemma logInteraction_current: "currentSessionId (logInteraction msgs st) = currentSessionId st"
  by (simp add: logInteraction_def split: option.splits)

lemma loadSession_returns:
  assumes "loadSession getTime ident st = Inr (r, st1)"
  shows "st1 = (case r of None \<Rightarrow> st | Some s \<Rightarrow> st\<lparr>currentSessionId := Some (sid s)\<rparr>)"
  using assms
  by (auto simp: loadSession_def Let_def split: option.splits sum.splits)

lemma loadSession_files: "loadSession getTime ident st = Inr (r, st1) \<Longrightarrow> files st1 = files st"
  by (drule loadSession_returns) (simp split: option.splits)

text \<open>What a rename that found its session returns.\<close>

lemma renameSession_found:
  assumes "loadSession getTime ident st = Inr (Some loaded, st1)"
  shows "\<exists>st'. renameSession getTime ident newName st = Inr (True, st')
          \<and> map_of (files st') =
              ((map_of (files st))(filename loaded := None))
                (sanitize newName @ ''.json'' \<mapsto>
                   Json (loaded\<lparr>filename := sanitize newName @ ''.json'',
                                sid := sanitize newName\<rparr>))
          \<and> currentSessionId st' =
              (if sid loaded = ident \<or> sid loaded = sanitize newName
               then Some (sanitize newName) else Some (sid loaded))
          \<and> clockReads st' = clockReads st"
proof -
  from assms have st1: "st1 = st\<lparr>currentSessionId := Some (sid loaded)\<rparr>"
    by (auto dest: loadSession_returns)
  show ?thesis
    using assms
    by (auto simp: renameSession_def Let_def renameFile_def map_of_writeFile st1
                   update_conv' delete_conv')
qed

lemma renameSession_not_found:
  "loadSession getTime ident st = Inr (None, st1)
   \<Longrightarrow> renameSession getTime ident newName st = Inr (False, st)"
  by (frule loadSession_returns) (simp add: renameSession_def)

lemma renameSession_throws:
  "loadSession getTime ident st = Inl e \<Longrightarrow> renameSession getTime ident newName st = Inl e"
  by (simp add: renameSession_def)

text \<open>The files after an operation that renames, whatever it returned.\<close>

lemma rename_files:
  "map_of (files (applyOp clock getTime st (Rename ident newName))) = map_of (files st)
   \<or> (\<exists>loaded.
        map_of (files (applyOp clock getTime st (Rename ident newName))) =
          ((map_of (files st))(filename loaded := None))
            (sanitize newName @ ''.json'' \<mapsto>
               Json (loaded\<lparr>filename := sanitize newName @ ''.json'',
                            sid := sanitize newName\<rparr>)))"
proof (cases "loadSession getTime ident st")
  case (Inl e)
  then show ?thesis by (simp add: renameSession_throws)
next
  case (Inr p)
  obtain r st1 where p: "p = (r, st1)" by (cases p)
  show ?thesis
  proof (cases r)
    case None
    with Inr p show ?thesis by (simp add: renameSession_not_found)
  next
    case (Some loaded)
    with Inr p obtain st' where
      "renameSession getTime ident newName st = Inr (True, st')"
      "map_of (files st') =
              ((map_of (files st))(filename loaded := None))
                (sanitize newName @ ''.json'' \<mapsto>
                   Json (loaded\<lparr>filename := sanitize newName @ ''.json'',
                                sid := sanitize newName\<rparr>))"
      using renameSession_found[of getTime ident st loaded st1 newName] by auto
    then show ?thesis by auto
  qed
qed

lemma load_files: "files (applyOp clock getTime st (Load ident)) = files st"
  by (auto split: sum.splits dest: loadSession_files)

section \<open>The id of a record is its storage key\<close>

lemma idMatchesKey_iff:
  "idMatchesKey dir \<longleftrightarrow> (\<forall>name s. readJson name dir = Some s \<longrightarrow> name = sid s @ ''.json'')"
proof
  assume a: "idMatchesKey dir"
  show "\<forall>name s. readJson name dir = Some s \<longrightarrow> name = sid s @ ''.json''"
  proof (intro allI impI)
    fix name s assume r: "readJson name dir = Some s"
    then have "name \<in> set (map fst dir)" by (rule readJson_listed)
    with a r show "name = sid s @ ''.json''"
      unfolding idMatchesKey_def list_all_iff by fastforce
  qed
next
  assume "\<forall>name s. readJson name dir = Some s \<longrightarrow> name = sid s @ ''.json''"
  then show "idMatchesKey dir"
    unfolding idMatchesKey_def list_all_iff by (auto split: option.splits)
qed

lemma idMatchesKey_create:
  "idMatchesKey (files st) \<Longrightarrow> idMatchesKey (files (snd (createSession clock st)))"
  by (simp add: createSession_files idMatchesKey_iff readJson_writeFile)

lemma idMatchesKey_log:
  "idMatchesKey (files st) \<Longrightarrow> idMatchesKey (files (logInteraction msgs st))"
  by (auto simp: logInteraction_files idMatchesKey_iff readJson_writeFile
           split: option.splits if_splits)

lemma idMatchesKey_rename:
  assumes "idMatchesKey (files st)"
  shows "idMatchesKey (files (applyOp clock getTime st (Rename ident newName)))"
  using rename_files[of clock getTime st ident newName] assms
  unfolding idMatchesKey_iff readJson_def
  by (auto split: option.splits file_text.splits if_splits)

lemma idMatchesKey_applyOp:
  "idMatchesKey (files st) \<Longrightarrow> idMatchesKey (files (applyOp clock getTime st op))"
proof (cases op)
  case (Rename ident newName)
  assume "idMatchesKey (files st)"
  then show ?thesis unfolding Rename by (rule idMatchesKey_rename)
next
  case (Load ident)
  assume "idMatchesKey (files st)"
  then show ?thesis unfolding Load by (simp only: load_files)
qed (simp_all add: idMatchesKey_create idMatchesKey_log)

lemma idMatchesKey_foldl:
  "idMatchesKey (files st) \<Longrightarrow> idMatchesKey (files (foldl (applyOp clock getTime) st ops))"
  by (induction ops arbitrary: st) (simp_all add: idMatchesKey_applyOp)

lemma createSession_record:
  "readJson (fst (createSession clock st) @ ''.json'') (files (snd (createSession clock st)))
     = Some \<lparr>sid = fst (createSession clock st),
             filename = fst (createSession clock st) @ ''.json'',
             createdAt = clock (Suc (clockReads st)), messages = []\<rparr>"
  by (simp add: createSession_files readJson_writeFile)

text \<open>
  C3. If every stored record's id is its file name without the \<open>.json\<close>, then this still
  holds after any sequence of create, append, load and rename; so it holds after any
  such sequence that starts from the empty directory. And create returns an id that is
  the active session, the id field of the record it wrote, and the stem of the file it
  wrote it to.
\<close>

theorem id_equals_storage_key:
  "(idMatchesKey (files st) \<longrightarrow> idMatchesKey (files (foldl (applyOp clock getTime) st ops)))
   \<and> idMatchesKey (files (foldl (applyOp clock getTime) emptyStore ops))
   \<and> (\<exists>r. readJson (fst (createSession clock st) @ ''.json'')
                   (files (snd (createSession clock st))) = Some r
          \<and> sid r = fst (createSession clock st)
          \<and> currentSessionId (snd (createSession clock st))
              = Some (fst (createSession clock st)))"
proof -
  have "idMatchesKey (files emptyStore)"
    by (simp add: emptyStore_def idMatchesKey_def)
  then have "idMatchesKey (files (foldl (applyOp clock getTime) emptyStore ops))"
    by (rule idMatchesKey_foldl)
  then show ?thesis
    by (simp add: idMatchesKey_foldl createSession_record createSession_current)
qed

theorem id_equals_storage_key_witness:
  "idMatchesKey (files demoStore)
   \<and> idMatchesKey (files (foldl (applyOp demoClock demoTime) demoStore demoOps))
   \<and> map fst (files (foldl (applyOp demoClock demoTime) demoStore demoOps))
       = [''alpha.json'', ''notes.json'', ''session-2024-05-01T10-00-00-000Z.json'',
          ''Trip-Planning.json'']
   \<and> idMatchesKey (files (foldl (applyOp demoClock demoTime) emptyStore demoOps))
   \<and> fst (createSession demoClock demoStore) = ''session-2024-05-01T10-00-00-000Z''"
proof -
  have h: "idMatchesKey (files demoStore)"
    by code_simp
  have l: "map fst (files (foldl (applyOp demoClock demoTime) demoStore demoOps))
       = [''alpha.json'', ''notes.json'', ''session-2024-05-01T10-00-00-000Z.json'',
          ''Trip-Planning.json'']"
    by code_simp
  have c: "fst (createSession demoClock demoStore) = ''session-2024-05-01T10-00-00-000Z''"
    by code_simp
  from h l c id_equals_storage_key[of demoStore demoClock demoTime demoOps]
  show ?thesis by blast
qed

section \<open>The directories the store writes\<close>

text \<open>
  \<open>storeWritten\<close> is kept by the four operations in the file system of the model, where
  a write and a rename to any name succeed.
\<close>

lemma storeWritten_iff:
  "storeWritten dir \<longleftrightarrow>
     (\<forall>name s. readJson name dir = Some s \<longrightarrow>
        name = sid s @ ''.json'' \<and> filename s = name \<and> \<not> endsWith ''.json'' (sid s))"
proof
  assume a: "storeWritten dir"
  show "\<forall>name s. readJson name dir = Some s \<longrightarrow>
          name = sid s @ ''.json'' \<and> filename s = name \<and> \<not> endsWith ''.json'' (sid s)"
  proof (intro allI impI)
    fix name s assume r: "readJson name dir = Some s"
    then have "name \<in> set (map fst dir)" by (rule readJson_listed)
    with a r show "name = sid s @ ''.json'' \<and> filename s = name \<and> \<not> endsWith ''.json'' (sid s)"
      unfolding storeWritten_def list_all_iff by fastforce
  qed
next
  assume "\<forall>name s. readJson name dir = Some s \<longrightarrow>
            name = sid s @ ''.json'' \<and> filename s = name \<and> \<not> endsWith ''.json'' (sid s)"
  then show "storeWritten dir"
    unfolding storeWritten_def list_all_iff by (auto split: option.splits)
qed

lemma endsWith_set: "endsWith e s \<Longrightarrow> set e \<subseteq> set s"
  unfolding endsWith_def by (metis set_drop_subset)

lemma no_dot_no_json: "CHR ''.'' \<notin> set s \<Longrightarrow> \<not> endsWith ''.json'' s"
  using endsWith_set[of "''.json''" s] by auto

lemma set_trim: "set (trim s) \<subseteq> set s"
  unfolding trim_def by (auto dest!: set_dropWhileD)

lemma set_replaceSpaceRuns: "set (replaceSpaceRuns s) \<subseteq> insert CHR ''-'' (set s)"
  by (induction s rule: replaceSpaceRuns.induct) (auto dest: set_dropWhileD)

lemma sanitize_no_dot: "CHR ''.'' \<notin> set (sanitize newName)"
proof
  assume "CHR ''.'' \<in> set (sanitize newName)"
  then have "CHR ''.'' \<in> set (trim (filter allowedChar newName))"
    unfolding sanitize_def using set_replaceSpaceRuns by fastforce
  then have "CHR ''.'' \<in> set (filter allowedChar newName)"
    using set_trim by blast
  then have "allowedChar CHR ''.''" by simp
  then show False by (simp add: allowedChar_def)
qed

lemma createSession_id_no_dot: "CHR ''.'' \<notin> set (fst (createSession clock st))"
  by (auto simp: createSession_def Let_def)

lemma storeWritten_create:
  "storeWritten (files st) \<Longrightarrow> storeWritten (files (snd (createSession clock st)))"
  using no_dot_no_json[OF createSession_id_no_dot[of clock st]]
  by (simp add: createSession_files storeWritten_iff readJson_writeFile)

lemma storeWritten_log:
  "storeWritten (files st) \<Longrightarrow> storeWritten (files (logInteraction msgs st))"
  by (auto simp: logInteraction_files storeWritten_iff readJson_writeFile
           split: option.splits if_splits)

lemma storeWritten_rename:
  assumes "storeWritten (files st)"
  shows "storeWritten (files (applyOp clock getTime st (Rename ident newName)))"
  using rename_files[of clock getTime st ident newName] assms
        no_dot_no_json[OF sanitize_no_dot[of newName]]
  unfolding storeWritten_iff readJson_def
  by (auto split: option.splits file_text.splits if_splits)

lemma storeWritten_applyOp:
  "storeWritten (files st) \<Longrightarrow> storeWritten (files (applyOp clock getTime st op))"
proof (cases op)
  case (Rename ident newName)
  assume "storeWritten (files st)"
  then show ?thesis unfolding Rename by (rule storeWritten_rename)
next
  case (Load ident)
  assume "storeWritten (files st)"
  then show ?thesis unfolding Load by (simp only: load_files)
qed (simp_all add: storeWritten_create storeWritten_log)

lemma storeWritten_reachable:
  "storeWritten (files st) \<Longrightarrow> storeWritten (files (foldl (applyOp clock getTime) st ops))"
  by (induction ops arbitrary: st) (simp_all add: storeWritten_applyOp)

lemma storeWritten_empty: "storeWritten []"
  by (simp add: storeWritten_def)

lemma storeWritten_idMatchesKey: "storeWritten dir \<Longrightarrow> idMatchesKey dir"
  by (simp add: storeWritten_iff idMatchesKey_iff)

section \<open>Listing\<close>

lemma records_Rec: "Null \<notin> set ps \<Longrightarrow> map Rec (records ps) = ps"
  by (induction ps rule: records.induct) auto

lemma set_records: "set (records ps) = {s. Rec s \<in> set ps}"
  by (induction ps rule: records.induct) auto

lemma mset_insertParsed:
  "insertParsed getTime x ys = Inr zs \<Longrightarrow> mset zs = add_mset x (mset ys)"
  by (induction ys arbitrary: zs) (auto split: sum.splits if_splits)

lemma mset_sortParsed: "sortParsed getTime xs = Inr ys \<Longrightarrow> mset ys = mset xs"
  by (induction xs arbitrary: ys) (auto split: sum.splits dest: mset_insertParsed)

lemma set_sortParsed: "sortParsed getTime xs = Inr ys \<Longrightarrow> set ys = set xs"
  by (metis mset_sortParsed set_mset_mset)

lemma insertParsed_no_null:
  "x \<noteq> Null \<Longrightarrow> Null \<notin> set ys \<Longrightarrow> \<exists>zs. insertParsed getTime x ys = Inr zs"
  by (induction ys) (auto simp: compareParsed_def split: parsed.splits)

lemma sortParsed_no_null: "Null \<notin> set xs \<Longrightarrow> \<exists>ys. sortParsed getTime xs = Inr ys"
proof (induction xs)
  case Nil
  then show ?case by simp
next
  case (Cons x xs)
  then obtain ys where ys: "sortParsed getTime xs = Inr ys" by auto
  then have "Null \<notin> set ys" using Cons.prems set_sortParsed by fastforce
  with Cons.prems obtain zs where "insertParsed getTime x ys = Inr zs"
    using insertParsed_no_null[of x ys getTime] by auto
  with ys show ?case by simp
qed

lemma insertParsed_null:
  "ys \<noteq> [] \<Longrightarrow> x = Null \<or> Null \<in> set ys \<Longrightarrow> (Null \<in> set ys \<longrightarrow> length ys = 1)
   \<Longrightarrow> insertParsed getTime x ys = Inl TypeError"
  by (cases ys) (auto simp: compareParsed_def split: parsed.splits)

lemma error_is_TypeError: "(e :: error) = TypeError"
  by (cases e) simp

text \<open>The sort throws exactly on a list of two or more that holds \<open>null\<close>.\<close>

lemma sortParsed_throws_iff:
  "sortParsed getTime xs = Inl TypeError \<longleftrightarrow> Null \<in> set xs \<and> 2 \<le> length xs"
proof (induction xs)
  case Nil
  then show ?case by simp
next
  case (Cons x xs)
  show ?case
  proof (cases "sortParsed getTime xs")
    case (Inl e)
    then have "Null \<in> set xs \<and> 2 \<le> length xs"
      using Cons.IH error_is_TypeError[of e] by simp
    with Inl show ?thesis using error_is_TypeError[of e] by simp
  next
    case (Inr ys)
    then have n: "\<not> (Null \<in> set xs \<and> 2 \<le> length xs)"
      using Cons.IH by simp
    have sy: "set ys = set xs" "length ys = length xs"
      using Inr mset_sortParsed[of getTime xs ys] set_sortParsed[of getTime xs ys]
      by (auto dest: arg_cong[where f = size])
    show ?thesis
    proof (cases "(x = Null \<or> Null \<in> set xs) \<and> xs \<noteq> []")
      case True
      have one: "Null \<in> set xs \<Longrightarrow> length xs = 1"
      proof -
        assume "Null \<in> set xs"
        with n have "\<not> 2 \<le> length xs" by simp
        moreover have "0 < length xs" using True by simp
        ultimately show "length xs = 1" by arith
      qed
      have "insertParsed getTime x ys = Inl TypeError"
        using True sy one by (intro insertParsed_null) auto
      with Inr True show ?thesis by (cases xs) auto
    next
      case False
      show ?thesis
      proof (cases "xs = []")
        case True
        with Inr show ?thesis by simp
      next
        case False2: False
        with False have nn: "x \<noteq> Null" "Null \<notin> set ys" using sy by auto
        then obtain zs where "insertParsed getTime x ys = Inr zs"
          using insertParsed_no_null[of x ys getTime] by auto
        with Inr nn sy show ?thesis by auto
      qed
    qed
  qed
qed

lemma set_readSessions:
  "set (readSessions dir names) =
     {v. \<exists>n \<in> set names. endsWith ''.json'' n \<and> parseFile n dir = Some v}"
  by (induction names) (auto split: option.splits)

lemma mset_readSessions:
  "mset (readSessions dir names) =
     image_mset (\<lambda>n. the (parseFile n dir))
       (filter_mset (\<lambda>n. endsWith ''.json'' n \<and> parseFile n dir \<noteq> None) (mset names))"
  by (induction names) (auto split: option.splits)

lemma nullListed_iff:
  "nullListed (files st) \<longleftrightarrow> Null \<in> set (readSessions (files st) (map fst (files st)))"
  unfolding nullListed_def list_ex_iff set_readSessions by auto

lemma listSessions_set:
  "listSessions getTime st = Inr ps
   \<Longrightarrow> set ps = {v. \<exists>n. endsWith ''.json'' n \<and> parseFile n (files st) = Some v}"
proof -
  assume "listSessions getTime st = Inr ps"
  then have "set ps = set (readSessions (files st) (map fst (files st)))"
    unfolding listSessions_def by (rule set_sortParsed)
  also have "\<dots> = {v. \<exists>n. endsWith ''.json'' n \<and> parseFile n (files st) = Some v}"
    unfolding set_readSessions using parseFile_listed by blast
  finally show ?thesis .
qed

lemma listSessions_no_null:
  "\<not> nullListed (files st) \<Longrightarrow> \<exists>ps. listSessions getTime st = Inr ps \<and> Null \<notin> set ps"
  unfolding nullListed_iff listSessions_def
  using sortParsed_no_null set_sortParsed by metis

lemma listSessions_throws_iff:
  "listSessions getTime st = Inl TypeError \<longleftrightarrow>
     nullListed (files st) \<and> 2 \<le> length (readSessions (files st) (map fst (files st)))"
  unfolding nullListed_iff listSessions_def by (rule sortParsed_throws_iff)

lemma newerOrSame_dated:
  "getTime (createdAt a) \<noteq> None \<Longrightarrow> getTime (createdAt b) \<noteq> None
   \<Longrightarrow> newerOrSame getTime a b = (compareSessions getTime a b \<le> 0)"
  by (auto simp: newerOrSame_def compareSessions_def)

lemma newerOrSame_trans:
  "getTime (createdAt b) \<noteq> None \<Longrightarrow> newerOrSame getTime a b \<Longrightarrow> newerOrSame getTime b c
   \<Longrightarrow> newerOrSame getTime a c"
  by (auto simp: newerOrSame_def split: option.splits)

lemma records_insertParsed:
  "insertParsed getTime x ys = Inr zs \<Longrightarrow> set (records zs) = set (records (x # ys))"
  by (drule mset_insertParsed) (metis set_records set_mset_mset mset.simps(2))

lemma descending_insertParsed:
  assumes "insertParsed getTime (Rec x) ys = Inr zs" and "Null \<notin> set ys"
    and "getTime (createdAt x) \<noteq> None"
    and "\<forall>y \<in> set (records ys). getTime (createdAt y) \<noteq> None"
    and "sorted_wrt (newerOrSame getTime) (records ys)"
  shows "sorted_wrt (newerOrSame getTime) (records zs)"
  using assms
proof (induction ys arbitrary: zs)
  case Nil
  then show ?case by auto
next
  case (Cons y ys)
  from Cons.prems(2) obtain t where y: "y = Rec t" by (cases y) auto
  show ?case
  proof (cases "compareSessions getTime x t \<le> 0")
    case True
    then have zs: "zs = Rec x # Rec t # ys"
      using Cons.prems(1) y by (simp add: compareParsed_def)
    have xt: "newerOrSame getTime x t"
      using True Cons.prems y by (simp add: newerOrSame_dated)
    have "\<forall>z \<in> set (records ys). newerOrSame getTime x z"
      using Cons.prems xt y by (auto intro: newerOrSame_trans[of getTime t x])
    with xt zs y Cons.prems show ?thesis by simp
  next
    case False
    then obtain ws where ws: "insertParsed getTime (Rec x) ys = Inr ws" and zs: "zs = Rec t # ws"
      using Cons.prems(1) y by (auto simp: compareParsed_def split: sum.splits)
    have tx: "newerOrSame getTime t x"
      using False Cons.prems y by (auto simp: newerOrSame_def compareSessions_def)
    have "sorted_wrt (newerOrSame getTime) (records ws)"
      using Cons.IH[OF ws] Cons.prems y by simp
    moreover have "set (records ws) = insert x (set (records ys))"
      using records_insertParsed[OF ws] by simp
    ultimately show ?thesis using zs tx Cons.prems y by auto
  qed
qed

lemma descending_sortParsed:
  assumes "sortParsed getTime xs = Inr ys" and "Null \<notin> set xs"
    and "\<forall>x \<in> set (records xs). getTime (createdAt x) \<noteq> None"
  shows "sorted_wrt (newerOrSame getTime) (records ys)"
  using assms
proof (induction xs arbitrary: ys)
  case Nil
  then show ?case by simp
next
  case (Cons x xs)
  from Cons.prems(2) obtain t where x: "x = Rec t" by (cases x) auto
  from Cons.prems(1) obtain ws where ws: "sortParsed getTime xs = Inr ws"
    and ys: "insertParsed getTime x ws = Inr ys"
    by (auto split: sum.splits)
  have sw: "set ws = set xs" using ws by (rule set_sortParsed)
  have "sorted_wrt (newerOrSame getTime) (records ws)"
    using Cons.IH[OF ws] Cons.prems x by simp
  moreover have "\<forall>y \<in> set (records ws). getTime (createdAt y) \<noteq> None"
    using Cons.prems(3) sw by (simp add: set_records)
  ultimately show ?case
    using descending_insertParsed[of getTime t ws ys] ys x Cons.prems sw by simp
qed

lemma mset_records:
  "mset (records ps) = image_mset (\<lambda>v. case v of Rec s \<Rightarrow> s) (filter_mset (\<lambda>v. v \<noteq> Null) (mset ps))"
  by (induction ps rule: records.induct) auto

lemma mset_records_readSessions:
  "mset (records (readSessions dir names)) =
     image_mset (\<lambda>n. the (readJson n dir))
       (filter_mset (\<lambda>n. endsWith ''.json'' n \<and> readJson n dir \<noteq> None) (mset names))"
  by (induction names)
     (auto simp: parseFile_def readJson_def split: option.splits file_text.splits)

text \<open>
  C9, as amended. Take any directory in which no \<open>.json\<close> file holds the JSON \<open>null\<close>
  (every file fails to parse or holds a session object). Then \<open>listSessions\<close> returns, a
  file that fails to parse is skipped, and the result holds one record for each listed
  file whose name ends in \<open>.json\<close> and whose text parses, and nothing else. If every
  returned record has a \<open>createdAt\<close> that is a date, the result is ordered newest first.
\<close>

theorem listSessions_parsed_sorted:
  assumes "\<not> nullListed (files st)"
  shows "\<exists>ps. listSessions getTime st = Inr ps \<and> Null \<notin> set ps
          \<and> mset (records ps) =
              image_mset (\<lambda>n. the (readJson n (files st)))
                (filter_mset (\<lambda>n. endsWith ''.json'' n \<and> readJson n (files st) \<noteq> None)
                             (mset (map fst (files st))))
          \<and> (allDated getTime (records ps) \<longrightarrow> descendingByCreatedAt getTime (records ps))"
proof -
  let ?xs = "readSessions (files st) (map fst (files st))"
  from assms obtain ps where ps: "listSessions getTime st = Inr ps" and nn: "Null \<notin> set ps"
    using listSessions_no_null by blast
  then have srt: "sortParsed getTime ?xs = Inr ps"
    by (simp add: listSessions_def)
  then have m: "mset ps = mset ?xs" by (rule mset_sortParsed)
  then have "mset (records ps) = mset (records ?xs)"
    by (simp add: mset_records)
  then have 1: "mset (records ps) =
              image_mset (\<lambda>n. the (readJson n (files st)))
                (filter_mset (\<lambda>n. endsWith ''.json'' n \<and> readJson n (files st) \<noteq> None)
                             (mset (map fst (files st))))"
    by (simp only: mset_records_readSessions)
  have 2: "allDated getTime (records ps) \<longrightarrow> descendingByCreatedAt getTime (records ps)"
  proof
    assume "allDated getTime (records ps)"
    then have "\<forall>x \<in> set (records ps). getTime (createdAt x) \<noteq> None"
      by (simp add: allDated_def list_all_iff)
    moreover have "set (records ps) = set (records ?xs)"
      using m by (metis mset_records set_mset_mset)
    moreover have "Null \<notin> set ?xs"
      using nn m by (metis set_mset_mset)
    ultimately show "descendingByCreatedAt getTime (records ps)"
      unfolding descendingByCreatedAt_def
      using descending_sortParsed[OF srt] by simp
  qed
  from ps nn 1 2 show ?thesis by blast
qed

lemma demo_listing:
  "listSessions demoTime demoStore =
     Inr [Rec \<lparr>sid = ''beta'', filename = ''beta.json'',
               createdAt = ''2024-05-01T10:00:01.000Z'', messages = []\<rparr>,
          Rec \<lparr>sid = ''alpha'', filename = ''alpha.json'',
               createdAt = ''2024-05-01T10:00:00.000Z'',
               messages = [\<lparr>role = ''user'', content = ''hi''\<rparr>,
                           \<lparr>role = ''assistant'', content = ''Hello''\<rparr>]\<rparr>]"
  by code_simp

theorem listSessions_parsed_sorted_witness:
  "\<not> nullListed (files demoStore)
   \<and> (\<exists>ps. listSessions demoTime demoStore = Inr ps
          \<and> map sid (records ps) = [''beta'', ''alpha'']
          \<and> allDated demoTime (records ps)
          \<and> descendingByCreatedAt demoTime (records ps))"
proof -
  have h: "\<not> nullListed (files demoStore)"
    by code_simp
  from listSessions_parsed_sorted[OF h, of demoTime] obtain ps where
    ps: "listSessions demoTime demoStore = Inr ps"
    and d: "allDated demoTime (records ps) \<longrightarrow> descendingByCreatedAt demoTime (records ps)"
    by blast
  have a: "allDated demoTime (records ps)"
    using ps unfolding demo_listing by (auto simp: allDated_def demoTime_def)
  have m: "map sid (records ps) = [''beta'', ''alpha'']"
    using ps unfolding demo_listing by auto
  from d a have "descendingByCreatedAt demoTime (records ps)" by simp
  with h ps a m show ?thesis by (intro conjI exI[of _ ps]) simp_all
qed

text \<open>
  C9 as stated fails: with a record whose \<open>createdAt\<close> is not a date between two dated
  ones, the comparator answers 0 for both neighbouring pairs, the list stays in directory
  order, and the older record \<open>a\<close> comes before the newer \<open>c\<close>.
\<close>

theorem listSessions_order_counterexample:
  "map_sum id (map sid \<circ> records) (listSessions demoTime undatedStore)
     = Inr [''a'', ''b'', ''c'']
   \<and> \<not> descendingByCreatedAt demoTime (records (projr (listSessions demoTime undatedStore)))"
  by code_simp

text \<open>
  What the amended C9 leaves out. A file that holds \<open>null\<close> is not skipped: beside another
  file that parses it makes the comparator, and with it \<open>listSessions\<close>, throw.
\<close>

theorem listSessions_null_throws:
  "listSessions getTime st = Inl TypeError \<longleftrightarrow>
     nullListed (files st) \<and> 2 \<le> length (readSessions (files st) (map fst (files st)))"
  by (rule listSessions_throws_iff)

theorem listSessions_null_example: "listSessions demoTime nullStore = Inl TypeError"
  by code_simp

section \<open>Loading and renaming\<close>

lemma findSession_no_null: "Null \<notin> set ps \<Longrightarrow> findSession P ps = Inr (find P (records ps))"
  by (induction P ps rule: findSession.induct) auto

lemma loadSession_by_file:
  "readJson (sessionFile ident) (files st) = Some s
   \<Longrightarrow> loadSession getTime ident st = Inr (Some s, st\<lparr>currentSessionId := Some (sid s)\<rparr>)"
  by (simp add: loadSession_def Let_def)

text \<open>The search by id, when no file holds \<open>null\<close>.\<close>

lemma loadSession_not_found:
  assumes "readJson (sessionFile ident) (files st) = None"
    and "\<not> nullListed (files st)"
    and "\<forall>n s. endsWith ''.json'' n \<and> readJson n (files st) = Some s \<longrightarrow>
           sid s \<noteq> ident \<and> filename s \<noteq> ident \<and> filename s \<noteq> sessionFile ident"
  shows "loadSession getTime ident st = Inr (None, st)"
proof -
  let ?P = "\<lambda>s. sid s = ident \<or> filename s = ident \<or> filename s = sessionFile ident"
  from assms(2) obtain ps where ps: "listSessions getTime st = Inr ps" and nn: "Null \<notin> set ps"
    using listSessions_no_null by blast
  have "\<forall>s \<in> set (records ps). \<not> ?P s"
  proof
    fix s assume "s \<in> set (records ps)"
    then have "Rec s \<in> set ps" by (simp add: set_records)
    then obtain n where "endsWith ''.json'' n" "parseFile n (files st) = Some (Rec s)"
      using listSessions_set[OF ps] by auto
    then show "\<not> ?P s" using assms(3) by (auto simp: parseFile_Rec)
  qed
  then have "find ?P (records ps) = None"
    by (simp add: find_None_iff)
  then show ?thesis
    using assms(1) ps nn by (simp add: loadSession_def Let_def findSession_no_null)
qed

lemma short_list_with: "x \<in> set xs \<Longrightarrow> \<not> 2 \<le> length xs \<Longrightarrow> xs = [x]"
proof (cases xs)
  case Nil
  assume "x \<in> set xs"
  with Nil show ?thesis by simp
next
  case (Cons a as)
  assume x: "x \<in> set xs" and "\<not> 2 \<le> length xs"
  with Cons have "as = []" by (cases as) simp_all
  with x Cons show ?thesis by simp
qed

text \<open>The search by id, when some file holds \<open>null\<close>: the sort or the search throws.\<close>

lemma loadSession_null_throws:
  assumes "readJson (sessionFile ident) (files st) = None" and "nullListed (files st)"
  shows "loadSession getTime ident st = Inl TypeError"
proof -
  let ?xs = "readSessions (files st) (map fst (files st))"
  have n: "Null \<in> set ?xs" using assms(2) by (simp add: nullListed_iff)
  show ?thesis
  proof (cases "2 \<le> length ?xs")
    case True
    then have "listSessions getTime st = Inl TypeError"
      using assms(2) by (simp add: listSessions_throws_iff)
    then show ?thesis using assms(1) by (simp add: loadSession_def Let_def)
  next
    case False
    with n have "?xs = [Null]"
      by (rule short_list_with)
    then have "listSessions getTime st = Inr [Null]"
      by (simp add: listSessions_def)
    then show ?thesis using assms(1) by (simp add: loadSession_def Let_def)
  qed
qed

lemma sanitize_My_Name: "sanitize ''My Name!'' = ''My-Name''"
  by code_simp

text \<open>
  C2, as amended. In a directory as the store writes it, take a stored session whose id
  \<open>oldId\<close> is not \<open>My-Name\<close>. Then \<open>rename(oldId, "My Name!")\<close> succeeds and leaves that
  record, with id \<open>My-Name\<close>, in \<open>My-Name.json\<close>; \<open>load("My-Name")\<close> returns it, and
  \<open>load(oldId)\<close> finds nothing: it returns not-found, unless a file that holds \<open>null\<close> lies
  in the directory, which makes the search by id throw.
\<close>

theorem rename_to_My_Name:
  assumes "storeWritten (files st)"
    and "readJson (oldId @ ''.json'') (files st) = Some s"
    and "oldId \<noteq> ''My-Name''"
  shows "\<exists>st'. renameSession getTime oldId ''My Name!'' st = Inr (True, st')
          \<and> readJson ''My-Name.json'' (files st')
              = Some (s\<lparr>filename := ''My-Name.json'', sid := ''My-Name''\<rparr>)
          \<and> loadSession getTime ''My-Name'' st'
              = Inr (Some (s\<lparr>filename := ''My-Name.json'', sid := ''My-Name''\<rparr>),
                     st'\<lparr>currentSessionId := Some ''My-Name''\<rparr>)
          \<and> loadSession getTime oldId st'
              = (if nullListed (files st') then Inl TypeError else Inr (None, st'))"
proof -
  let ?r = "s\<lparr>filename := ''My-Name.json'', sid := ''My-Name''\<rparr>"
  from assms(1,2) have s: "sid s = oldId" "filename s = oldId @ ''.json''"
    and noext: "\<not> endsWith ''.json'' oldId"
    unfolding storeWritten_iff by auto
  have ld: "loadSession getTime oldId st = Inr (Some s, st\<lparr>currentSessionId := Some (sid s)\<rparr>)"
    using assms(2) noext by (intro loadSession_by_file) (simp add: sessionFile_def)
  from renameSession_found[OF ld, of "''My Name!''"] obtain st' where
    rn: "renameSession getTime oldId ''My Name!'' st = Inr (True, st')"
    and mp: "map_of (files st') =
               ((map_of (files st))(oldId @ ''.json'' := None))(''My-Name.json'' \<mapsto> Json ?r)"
    by (auto simp: s sanitize_My_Name)
  have rd: "\<And>n. readJson n (files st') =
              (if n = ''My-Name.json'' then Some ?r
               else if n = oldId @ ''.json'' then None else readJson n (files st))"
    by (simp add: readJson_def mp)
  have 2: "readJson ''My-Name.json'' (files st') = Some ?r"
    by (simp add: rd)
  have e: "sessionFile ''My-Name'' = ''My-Name.json''"
    by (simp add: sessionFile_def endsWith_def)
  have 3: "loadSession getTime ''My-Name'' st'
             = Inr (Some ?r, st'\<lparr>currentSessionId := Some ''My-Name''\<rparr>)"
    using loadSession_by_file[of "''My-Name''" st' ?r getTime] 2 e by simp
  have f: "readJson (sessionFile oldId) (files st') = None"
    using noext assms(3) by (simp add: rd sessionFile_def)
  have 4: "loadSession getTime oldId st'
             = (if nullListed (files st') then Inl TypeError else Inr (None, st'))"
  proof (cases "nullListed (files st')")
    case True
    then show ?thesis using loadSession_null_throws[OF f] by simp
  next
    case False
    have "\<forall>n t. endsWith ''.json'' n \<and> readJson n (files st') = Some t \<longrightarrow>
            sid t \<noteq> oldId \<and> filename t \<noteq> oldId \<and> filename t \<noteq> sessionFile oldId"
    proof (intro allI impI)
      fix n t
      assume a: "endsWith ''.json'' n \<and> readJson n (files st') = Some t"
      show "sid t \<noteq> oldId \<and> filename t \<noteq> oldId \<and> filename t \<noteq> sessionFile oldId"
      proof (cases "n = ''My-Name.json''")
        case True
        with a have "t = ?r" by (simp add: rd)
        moreover have "oldId \<noteq> ''My-Name.json''"
          using noext by (auto simp: endsWith_def)
        ultimately show ?thesis using assms(3) noext by (auto simp: sessionFile_def)
      next
        case False
        with a have n: "n \<noteq> oldId @ ''.json''" and t: "readJson n (files st) = Some t"
          by (auto simp: rd split: if_splits)
        from t assms(1) have w: "n = sid t @ ''.json''" "filename t = n"
          unfolding storeWritten_iff by auto
        have "n \<noteq> oldId" using a noext by auto
        with n w noext show ?thesis by (auto simp: sessionFile_def)
      qed
    qed
    from loadSession_not_found[OF f False this] False show ?thesis by simp
  qed
  from rn 2 3 4 show ?thesis by blast
qed

lemma demo_rename:
  "renameSession demoTime ''alpha'' ''My Name!'' demoStore = Inr (True, renamedStore)"
  by code_simp

theorem rename_to_My_Name_witness:
  "storeWritten (files demoStore)
   \<and> readJson (''alpha'' @ ''.json'') (files demoStore) \<noteq> None
   \<and> ''alpha'' \<noteq> ''My-Name''
   \<and> (\<exists>st'. renameSession demoTime ''alpha'' ''My Name!'' demoStore = Inr (True, st')
          \<and> map_option sid (readJson ''My-Name.json'' (files st')) = Some ''My-Name''
          \<and> map_sum id (map_option sid \<circ> fst) (loadSession demoTime ''My-Name'' st')
              = Inr (Some ''My-Name'')
          \<and> loadSession demoTime ''alpha'' st' = Inr (None, st'))"
proof -
  let ?s = "\<lparr>sid = ''alpha'', filename = ''alpha.json'',
             createdAt = ''2024-05-01T10:00:00.000Z'',
             messages = [\<lparr>role = ''user'', content = ''hi''\<rparr>,
                         \<lparr>role = ''assistant'', content = ''Hello''\<rparr>]\<rparr>"
  have h1: "storeWritten (files demoStore)"
    by code_simp
  have h2: "readJson (''alpha'' @ ''.json'') (files demoStore) = Some ?s"
    by code_simp
  have h3: "''alpha'' \<noteq> ''My-Name''"
    by simp
  from rename_to_My_Name[OF h1 h2 h3, of demoTime] obtain st' where
    a: "renameSession demoTime ''alpha'' ''My Name!'' demoStore = Inr (True, st')"
    and b: "readJson ''My-Name.json'' (files st')
              = Some (?s\<lparr>filename := ''My-Name.json'', sid := ''My-Name''\<rparr>)"
    and c: "loadSession demoTime ''My-Name'' st'
              = Inr (Some (?s\<lparr>filename := ''My-Name.json'', sid := ''My-Name''\<rparr>),
                     st'\<lparr>currentSessionId := Some ''My-Name''\<rparr>)"
    and d: "loadSession demoTime ''alpha'' st'
              = (if nullListed (files st') then Inl TypeError else Inr (None, st'))"
    by blast
  have "st' = renamedStore"
    using a unfolding demo_rename by simp
  moreover have "\<not> nullListed (files renamedStore)"
    by code_simp
  ultimately have "\<not> nullListed (files st')" by simp
  with d have d': "loadSession demoTime ''alpha'' st' = Inr (None, st')" by simp
  from h1 h2 h3 a b c d' show ?thesis
    by (intro conjI exI[of _ st']) simp_all
qed

text \<open>
  C2 as stated fails for the stored session whose id is \<open>My-Name\<close> already: after the
  rename its old id is the new id, and \<open>load(oldId)\<close> finds the record.
\<close>

theorem rename_same_name_counterexample:
  "map_option sid (readJson ''My-Name.json'' (files sameNameStore)) = Some ''My-Name''
   \<and> map_sum id fst (renameSession demoTime ''My-Name'' ''My Name!'' sameNameStore) = Inr True
   \<and> map_sum id (map_option sid \<circ> fst)
        (loadSession demoTime ''My-Name''
           (snd (projr (renameSession demoTime ''My-Name'' ''My Name!'' sameNameStore))))
      = Inr (Some ''My-Name'')"
  by code_simp

section \<open>The active session under rename\<close>

text \<open>
  C4. The code does not do what the claim and its own comment (\<open>Update current session
  ID if we just renamed the active one\<close>) say. With \<open>alpha\<close> active, renaming the other
  session \<open>beta\<close> moves the active-session pointer to the new id; and renaming the active
  session through its file name \<open>alpha.json\<close> leaves the pointer at the old id, under
  which no file is left.
\<close>

theorem rename_active_pointer_diverges:
  "currentSessionId demoStore = Some ''alpha''
   \<and> renameSession demoTime ''beta'' ''New Name'' demoStore
       = Inr (True, demoStore\<lparr>currentSessionId := Some ''New-Name'',
                 files := files (snd (projr (renameSession demoTime ''beta'' ''New Name''
                                              demoStore)))\<rparr>)
   \<and> currentSessionId (snd (projr (renameSession demoTime ''alpha.json'' ''New Name'' demoStore)))
       = Some ''alpha''
   \<and> map_sum id fst (renameSession demoTime ''alpha.json'' ''New Name'' demoStore) = Inr True
   \<and> readJson ''alpha.json''
        (files (snd (projr (renameSession demoTime ''alpha.json'' ''New Name'' demoStore))))
       = None
   \<and> map_option sid (readJson ''New-Name.json''
        (files (snd (projr (renameSession demoTime ''alpha.json'' ''New Name'' demoStore)))))
       = Some ''New-Name''"
  by code_simp

section \<open>Lines that are commands, lines that are not\<close>

lemma handleLine_load:
  "trim ln = ''/load '' @ arg \<Longrightarrow>
   handleLine clock getTime agent render ln c =
     (case loadSession getTime (trim arg) (manager c) of
        Inl e \<Rightarrow> (Inl e, c, [])
      | Inr (Some s, st) \<Rightarrow>
          (Inr None, \<lparr>transcript = messages s, manager = st\<rparr>,
           [PrintLoaded (sid s)
              (map (\<lambda>m. (role m, take 50 (content m)))
                   (drop (length (messages s) - 2) (messages s)))])
      | Inr (None, st) \<Rightarrow> (Inr None, c\<lparr>manager := st\<rparr>, [PrintNotFound (trim arg)]))"
  by (simp add: handleLine_def Let_def startsWith_def)

text \<open>
  C8, as amended. Let the argument of \<open>/load\<close> be a plain name, without a path separator,
  that matches no stored session: the file of that name (with \<open>.json\<close> added if missing)
  is absent or does not parse to a session, and no \<open>.json\<close> file of the directory parses
  to a record with that id or with that name in its \<open>filename\<close> field. Let no \<open>.json\<close> file
  hold \<open>null\<close>. Then the handler prints not-found and returns the chat as it was: the
  transcript and the store, with its active session id, are unchanged.
\<close>

theorem load_unknown_changes_nothing:
  assumes "trim ln = ''/load '' @ arg"
    and "CHR ''/'' \<notin> set (trim arg)"
    and "readJson (sessionFile (trim arg)) (files (manager c)) = None"
    and "\<not> nullListed (files (manager c))"
    and "\<forall>n s. endsWith ''.json'' n \<and> readJson n (files (manager c)) = Some s \<longrightarrow>
           sid s \<noteq> trim arg \<and> filename s \<noteq> trim arg \<and> filename s \<noteq> sessionFile (trim arg)"
  shows "handleLine clock getTime agent render ln c = (Inr None, c, [PrintNotFound (trim arg)])"
proof -
  have "loadSession getTime (trim arg) (manager c) = Inr (None, manager c)"
    using assms(3,4,5) by (rule loadSession_not_found)
  with assms(1) show ?thesis
    by (simp add: handleLine_load)
qed

theorem load_unknown_changes_nothing_witness:
  "trim ''/load nonexistent-id'' = ''/load '' @ ''nonexistent-id''
   \<and> CHR ''/'' \<notin> set (trim ''nonexistent-id'')
   \<and> readJson (sessionFile (trim ''nonexistent-id'')) (files (manager demoChat)) = None
   \<and> \<not> nullListed (files (manager demoChat))
   \<and> handleLine demoClock demoTime demoAgent demoRender ''/load nonexistent-id'' demoChat
       = (Inr None, demoChat, [PrintNotFound ''nonexistent-id''])"
proof -
  have h1: "trim ''/load nonexistent-id'' = ''/load '' @ ''nonexistent-id''"
    by code_simp
  have t: "trim ''nonexistent-id'' = ''nonexistent-id''"
    by code_simp
  have h2: "CHR ''/'' \<notin> set (trim ''nonexistent-id'')"
    unfolding t by simp
  have h3: "readJson (sessionFile (trim ''nonexistent-id'')) (files (manager demoChat)) = None"
    by code_simp
  have h4: "\<not> nullListed (files (manager demoChat))"
    by code_simp
  have h5: "\<forall>n s. endsWith ''.json'' n \<and> readJson n (files (manager demoChat)) = Some s \<longrightarrow>
           sid s \<noteq> trim ''nonexistent-id'' \<and> filename s \<noteq> trim ''nonexistent-id''
           \<and> filename s \<noteq> sessionFile (trim ''nonexistent-id'')"
    unfolding t
    by (auto simp: demoChat_def demoStore_def readJson_def sessionFile_def endsWith_def
             split: if_splits)
  show ?thesis
    using h1 h2 h3 h4
      load_unknown_changes_nothing[OF h1 h2 h3 h4 h5, of demoClock demoTime demoAgent demoRender]
    unfolding t by simp
qed

text \<open>
  C8 as stated fails: \<open>ghost\<close> is the name of no file and the id of no record, but the
  record \<open>alpha\<close> carries \<open>ghost.json\<close> in its \<open>filename\<close> field, which the search of
  \<open>loadSession\<close> also compares. So \<open>/load ghost\<close> loads \<open>alpha\<close>: the transcript is replaced
  and the active session changes from \<open>beta\<close> to \<open>alpha\<close>.
\<close>

theorem load_stale_filename_counterexample:
  "map fst (files (manager staleChat)) = [''alpha.json'', ''beta.json'']
   \<and> map_sum id (map sid \<circ> records) (listSessions demoTime (manager staleChat))
       = Inr [''beta'', ''alpha'']
   \<and> currentSessionId (manager staleChat) = Some ''beta''
   \<and> handleLine demoClock demoTime demoAgent demoRender ''/load ghost'' staleChat
       = (Inr None,
          \<lparr>transcript = [\<lparr>role = ''user'', content = ''hi''\<rparr>,
                          \<lparr>role = ''assistant'', content = ''Hello''\<rparr>],
           manager = (manager staleChat)\<lparr>currentSessionId := Some ''alpha''\<rparr>\<rparr>,
          [PrintLoaded ''alpha'' [(''user'', ''hi''), (''assistant'', ''Hello'')]])"
  by code_simp

text \<open>
  What the amended C8 leaves out. With a file that holds \<open>null\<close> in the directory the
  search by id throws: nothing is changed, and nothing is printed either.
\<close>

theorem load_unknown_null_throws:
  assumes "trim ln = ''/load '' @ arg"
    and "readJson (sessionFile (trim arg)) (files (manager c)) = None"
    and "nullListed (files (manager c))"
  shows "handleLine clock getTime agent render ln c = (Inl TypeError, c, [])"
  using assms by (simp add: handleLine_load loadSession_null_throws)

section \<open>Thinking blocks\<close>

lemma afterClose_no_angle:
  "CHR ''<'' \<notin> set body \<Longrightarrow> afterClose (body @ ''</think>'' @ rest) = Some rest"
  by (induction body) (auto simp: startsWith_def)

lemma stripThink_no_angle: "CHR ''<'' \<notin> set s \<Longrightarrow> stripThink s = s"
  by (induction s) (auto simp: startsWith_def)

lemma stripThink_block:
  "CHR ''<'' \<notin> set body \<Longrightarrow>
   stripThink (''<think>'' @ body @ ''</think>'' @ rest) = stripThink rest"
proof -
  assume "CHR ''<'' \<notin> set body"
  then have "afterClose (drop 7 (''<think>'' @ body @ ''</think>'' @ rest)) = Some rest"
    using afterClose_no_angle[of body rest] by simp
  then show ?thesis
    by (simp add: startsWith_def)
qed

section \<open>The chat turn\<close>

lemma logInteraction_active:
  assumes "currentSessionId st = Some cur" and "cur \<noteq> []"
    and "readJson (cur @ ''.json'') (files st) = Some s0"
  shows "readJson (cur @ ''.json'') (files (logInteraction msgs st)) = Some (s0\<lparr>messages := msgs\<rparr>)"
  using assms by (simp add: logInteraction_def readJson_writeFile)

lemma chatTurn_reply:
  assumes "agent (transcript c @ [userTurn input]) = Generated resultText reasoningText"
    and "pickResponseText resultText reasoningText = Some r"
    and "render (formatResponse r) = Some rendered"
  shows "fst (chatTurn agent render input c) =
           \<lparr>transcript = transcript c @ [userTurn input, assistantTurn r],
            manager = logInteraction (transcript c @ [userTurn input, assistantTurn r])
                        (logInteraction (transcript c @ [userTurn input]) (manager c))\<rparr>"
  using assms by (simp add: chatTurn_def Let_def)

lemma chatTurn_no_reply:
  assumes "agent (transcript c @ [userTurn input]) = Rejects
           \<or> (\<exists>resultText reasoningText. agent (transcript c @ [userTurn input]) = Generated resultText reasoningText
                \<and> (case pickResponseText resultText reasoningText of
                      None \<Rightarrow> True
                    | Some r \<Rightarrow> render (formatResponse r) = None))"
  shows "fst (chatTurn agent render input c) =
           \<lparr>transcript = transcript c @ [userTurn input],
            manager = logInteraction (transcript c @ [userTurn input]) (manager c)\<rparr>"
  using assms by (auto simp: chatTurn_def Let_def split: option.splits)

lemma handleLine_chat:
  assumes "input = trim ln" and "input \<noteq> []"
    and "input \<notin> {''exit'', ''quit'', ''/exit'', ''/quit'', ''/config'', ''/help'', ''/clear'',
                    ''/history''}"
    and "\<not> startsWith ''/load '' input" and "\<not> startsWith ''/rename '' input"
  shows "handleLine clock getTime agent render ln c =
           (Inr None, fst (chatTurn agent render input c), snd (chatTurn agent render input c))"
  using assms by (simp add: handleLine_def Let_def split: prod.splits)

lemma trim_hi: "trim ''hi'' = ''hi''"
  by code_simp

lemma handleLine_hi:
  "handleLine clock getTime agent render ''hi'' c =
     (Inr None, fst (chatTurn agent render ''hi'' c), snd (chatTurn agent render ''hi'' c))"
  by (rule handleLine_chat) (simp_all add: trim_hi startsWith_def)

text \<open>
  C5, as amended. Start from an empty transcript with an active session whose file
  parses, and let the generation answer the line \<open>hi\<close> with the response text \<open>r\<close>. If
  \<open>marked.parse\<close> returns, the session file holds the user turn \<open>hi\<close> followed by the
  assistant turn whose content is \<open>r\<close> with its thinking blocks removed and trimmed, or
  \<open>r\<close> itself when that is empty. If \<open>marked.parse\<close> throws, the file holds the user turn
  alone.
\<close>

theorem chat_turn_hi_persisted:
  assumes "transcript c = []"
    and "currentSessionId (manager c) = Some cur" and "cur \<noteq> []"
    and "readJson (cur @ ''.json'') (files (manager c)) = Some s0"
    and "agent [userTurn ''hi''] = Generated resultText reasoningText"
    and "pickResponseText resultText reasoningText = Some r"
  shows "readJson (cur @ ''.json'')
           (files (manager (fst (snd (handleLine clock getTime agent render ''hi'' c)))))
         = Some (s0\<lparr>messages := (if render (formatResponse r) = None then [userTurn ''hi'']
                                   else [userTurn ''hi'', assistantTurn r])\<rparr>)"
proof (cases "render (formatResponse r)")
  case None
  have "fst (chatTurn agent render ''hi'' c) =
          \<lparr>transcript = transcript c @ [userTurn ''hi''],
           manager = logInteraction (transcript c @ [userTurn ''hi'']) (manager c)\<rparr>"
    using assms(1,5,6) None by (intro chatTurn_no_reply) simp
  then show ?thesis
    using None assms(1) logInteraction_active[OF assms(2,3,4)]
    by (simp add: handleLine_hi)
next
  case (Some rendered)
  let ?st1 = "logInteraction [userTurn ''hi''] (manager c)"
  have c': "fst (chatTurn agent render ''hi'' c) =
          \<lparr>transcript = [userTurn ''hi'', assistantTurn r],
           manager = logInteraction [userTurn ''hi'', assistantTurn r] ?st1\<rparr>"
    using chatTurn_reply[of agent c "''hi''" resultText reasoningText r render rendered] assms(1,5,6) Some
    by simp
  have a: "currentSessionId ?st1 = Some cur"
    and b: "readJson (cur @ ''.json'') (files ?st1) = Some (s0\<lparr>messages := [userTurn ''hi'']\<rparr>)"
    using logInteraction_active[OF assms(2,3,4)] assms(2) by (simp_all add: logInteraction_current)
  have "readJson (cur @ ''.json'')
          (files (logInteraction [userTurn ''hi'', assistantTurn r] ?st1))
        = Some (s0\<lparr>messages := [userTurn ''hi'', assistantTurn r]\<rparr>)"
    using logInteraction_active[OF a assms(3) b] by simp
  then show ?thesis
    using Some c' by (simp add: handleLine_hi)
qed

theorem chat_turn_hi_persisted_witness:
  "transcript freshChat = []
   \<and> currentSessionId (manager freshChat) = Some ''session-2024-05-01T10-00-00-000Z''
   \<and> readJson (''session-2024-05-01T10-00-00-000Z'' @ ''.json'') (files (manager freshChat)) \<noteq> None
   \<and> map_option messages
        (readJson (''session-2024-05-01T10-00-00-000Z'' @ ''.json'')
           (files (manager (fst (snd (handleLine demoClock demoTime demoAgent demoRender
                                         ''hi'' freshChat))))))
      = Some [\<lparr>role = ''user'', content = ''hi''\<rparr>, \<lparr>role = ''assistant'', content = ''Hello''\<rparr>]"
proof -
  let ?cur = "''session-2024-05-01T10-00-00-000Z''"
  let ?s0 = "\<lparr>sid = ?cur, filename = ?cur @ ''.json'',
              createdAt = ''2024-05-01T10:00:00.000Z'', messages = []\<rparr>"
  have h1: "transcript freshChat = []"
    by (simp add: freshChat_def)
  have h2: "currentSessionId (manager freshChat) = Some ?cur"
    by code_simp
  have h3: "?cur \<noteq> []"
    by simp
  have h4: "readJson (?cur @ ''.json'') (files (manager freshChat)) = Some ?s0"
    by code_simp
  have h5: "demoAgent [userTurn ''hi''] = Generated (Some ''<think>plan</think>Hello'') None"
    by (simp add: demoAgent_def)
  have h6: "pickResponseText (Some ''<think>plan</think>Hello'') None
              = Some ''<think>plan</think>Hello''"
    by code_simp
  have r: "demoRender (formatResponse ''<think>plan</think>Hello'') \<noteq> None"
    by (simp add: demoRender_def)
  have a: "assistantTurn ''<think>plan</think>Hello'' = \<lparr>role = ''assistant'', content = ''Hello''\<rparr>"
    by code_simp
  note t = chat_turn_hi_persisted[where c = freshChat and cur = "?cur" and ?s0.0 = "?s0"
      and agent = demoAgent and resultText = "Some ''<think>plan</think>Hello''" and reasoningText = None
      and r = "''<think>plan</think>Hello''" and clock = demoClock and getTime = demoTime
      and render = demoRender, OF h1 h2 h3 h4 h5 h6]
  show ?thesis
    using h1 h2 h4 r a t by (simp add: userTurn_def)
qed

text \<open>
  C5 as stated fails when rendering fails: \<open>marked.parse\<close> sits in the same \<open>try\<close> block,
  before the assistant turn is pushed, so after the turn the session file holds the user
  turn only, although the generation did answer.
\<close>

theorem render_failure_counterexample:
  "demoAgent [\<lparr>role = ''user'', content = ''hi''\<rparr>] = Generated (Some ''<think>plan</think>Hello'') None
   \<and> map_option messages
        (readJson ''session-2024-05-01T10-00-00-000Z.json''
           (files (manager (fst (snd (handleLine demoClock demoTime demoAgent failingRender
                                         ''hi'' freshChat))))))
      = Some [\<lparr>role = ''user'', content = ''hi''\<rparr>]"
  by code_simp

section \<open>Lines that look like commands\<close>








section \<open>The application loop\<close>

text \<open>
  C1. The code creates one session, before the loop, and none at the top of a pass. After
  the first chat session ends with \<open>/config\<close> its record holds the turns \<open>hi\<close>, \<open>Hello\<close>.
  The chat session after the reconfiguration starts with an empty transcript but with
  the same active session: its turn \<open>yo\<close> is written to the same file, which is still the
  only one, and the turns of the first chat session are gone from it. The sibling path
  \<open>/clear\<close> does create a session when it empties the transcript: there the first
  record keeps its turns.
\<close>

theorem reconfigure_reuses_session:
  "map fst (files (fst (snd (main demoClock demoTime demoRender firstRound emptyStore))))
     = [''session-2024-05-01T10-00-00-000Z.json'']
   \<and> map_option (map content \<circ> messages)
        (readJson ''session-2024-05-01T10-00-00-000Z.json''
           (files (fst (snd (main demoClock demoTime demoRender firstRound emptyStore)))))
       = Some [''hi'', ''Hello'']
   \<and> map fst (files (fst (snd (main demoClock demoTime demoRender reconfigureRounds emptyStore))))
       = [''session-2024-05-01T10-00-00-000Z.json'']
   \<and> currentSessionId (fst (snd (main demoClock demoTime demoRender reconfigureRounds emptyStore)))
       = Some ''session-2024-05-01T10-00-00-000Z''
   \<and> map_option (map content \<circ> messages)
        (readJson ''session-2024-05-01T10-00-00-000Z.json''
           (files (fst (snd (main demoClock demoTime demoRender reconfigureRounds emptyStore)))))
       = Some [''yo'', ''Hello'']
   \<and> map (\<lambda>(name, f). (name, case f of Json s \<Rightarrow> map content (messages s) | Unparsable \<Rightarrow> []))
          (files (fst (snd (main demoClock demoTime demoRender clearLines emptyStore))))
       = [(''session-2024-05-01T10-00-00-000Z.json'', [''hi'', ''Hello'']),
          (''session-2024-05-01T10-00-01-000Z.json'', [''yo'', ''Hello''])]"
  by code_simp

section \<open>The suggestion engine\<close>

lemma bare_prefix: "length ln = 1 \<Longrightarrow> startsWith ''/'' ln \<Longrightarrow> ln = ''/''"
  by (cases ln) (auto simp: startsWith_def)

lemma refreshLine_latch:
  "showRootSuggestion (refreshLine g) =
     (showRootSuggestion g \<and> activeCondition (inputLine g) (cursor g))"
  by (auto simp: refreshLine_def Let_def activeCondition_def split: option.splits)

text \<open>
  C6, as amended. A line refresh clears the latch exactly when the line is empty, does
  not start with \<open>/\<close>, or the cursor is not at its end. A refresh on a longer command
  prefix with the cursor at its end, such as \<open>/c\<close>, leaves the latch as it was.
\<close>

theorem refresh_latch:
  "showRootSuggestion (step g (Refresh ln cur)) =
     (showRootSuggestion g \<and> ln \<noteq> [] \<and> startsWith ''/'' ln \<and> cur = length ln)"
  by (simp add: refreshLine_latch activeCondition_def)

text \<open>
  C6 as stated fails: after the reveal, typing \<open>c\<close> gives the line \<open>/c\<close>, which is not the
  bare prefix, and the refresh leaves the latch set; back at the bare prefix the
  suggestion is shown at once, with no timer.
\<close>

theorem latch_survives_counterexample:
  "inputLine (runEvents initialGhost [Refresh ''/'' 1, TimerFires 0, Refresh ''/c'' 2]) \<noteq> ''/''
   \<and> showRootSuggestion (runEvents initialGhost [Refresh ''/'' 1, TimerFires 0, Refresh ''/c'' 2])
   \<and> suggestion (runEvents initialGhost
                    [Refresh ''/'' 1, TimerFires 0, Refresh ''/c'' 2, Refresh ''/'' 1]) = ''help''
   \<and> pendingTimers (runEvents initialGhost
                    [Refresh ''/'' 1, TimerFires 0, Refresh ''/c'' 2, Refresh ''/'' 1]) = []"
  by code_simp

lemma refreshLine_cases:
  assumes "pendingTimers g = [] \<or> (\<exists>t. pendingTimers g = [t] \<and> rootSuggestionTimer g = Some t)"
  shows "(pendingTimers (refreshLine g) = [])
         \<or> (pendingTimers (refreshLine g) = [nextTimer g]
            \<and> rootSuggestionTimer (refreshLine g) = Some (nextTimer g)
            \<and> nextTimer (refreshLine g) = Suc (nextTimer g)
            \<and> \<not> showRootSuggestion (refreshLine g) \<and> suggestion (refreshLine g) = []
            \<and> inputLine (refreshLine g) = ''/'' \<and> cursor (refreshLine g) = 1
            \<and> \<not> showRootSuggestion g)"
  using assms
  by (auto simp: refreshLine_def Let_def bare_prefix split: option.splits)

lemma ghostInv_refreshLine:
  assumes "pendingTimers g = [] \<or> (\<exists>t. pendingTimers g = [t] \<and> rootSuggestionTimer g = Some t)"
  shows "ghostInv (refreshLine g)"
  using refreshLine_cases[OF assms] by (auto simp: ghostInv_def)

lemma ghostInv_step: "ghostInv g \<Longrightarrow> ghostInv (step g e)"
proof (cases e)
  case (Refresh ln cur)
  assume "ghostInv g"
  then have "pendingTimers (g\<lparr>inputLine := ln, cursor := cur\<rparr>) = []
             \<or> (\<exists>t. pendingTimers (g\<lparr>inputLine := ln, cursor := cur\<rparr>) = [t]
                  \<and> rootSuggestionTimer (g\<lparr>inputLine := ln, cursor := cur\<rparr>) = Some t)"
    by (auto simp: ghostInv_def)
  then show ?thesis using Refresh by (simp add: ghostInv_refreshLine)
next
  case (TimerFires t)
  assume inv: "ghostInv g"
  show ?thesis
  proof (cases "t \<in> set (pendingTimers g)")
    case True
    with inv have "pendingTimers g = [t]" by (auto simp: ghostInv_def)
    then have "pendingTimers (g\<lparr>pendingTimers := removeAll t (pendingTimers g),
                                showRootSuggestion := True\<rparr>) = []"
      by simp
    then have "ghostInv (refreshLine (g\<lparr>pendingTimers := removeAll t (pendingTimers g),
                                         showRootSuggestion := True\<rparr>))"
      by (intro ghostInv_refreshLine) blast
    with True TimerFires show ?thesis by simp
  next
    case False
    with inv TimerFires show ?thesis by simp
  qed
qed

lemma ghostInv_runEvents: "ghostInv g \<Longrightarrow> ghostInv (runEvents g es)"
  unfolding runEvents_def by (induction es arbitrary: g) (simp_all add: ghostInv_step)

lemma ghostInv_initial: "ghostInv initialGhost"
  by (simp add: ghostInv_def initialGhost_def)

lemma refresh_only_quiet:
  "\<forall>e \<in> set es. isRefresh e \<Longrightarrow> \<not> showRootSuggestion g
   \<Longrightarrow> inputLine g = ''/'' \<longrightarrow> suggestion g = []
   \<Longrightarrow> \<not> showRootSuggestion (runEvents g es)
       \<and> (inputLine (runEvents g es) = ''/'' \<longrightarrow> suggestion (runEvents g es) = [])"
  unfolding runEvents_def
proof (induction es arbitrary: g)
  case Nil
  then show ?case by simp
next
  case (Cons e es)
  then obtain ln cur where e: "e = Refresh ln cur" by (cases e) auto
  have "\<not> showRootSuggestion (step g e)"
    using Cons.prems(2) e by (simp add: refreshLine_latch)
  moreover have "inputLine (step g e) = ''/'' \<longrightarrow> suggestion (step g e) = []"
    using Cons.prems(2) e
    by (auto simp: refreshLine_def Let_def startsWith_def split: option.splits)
  ultimately show ?case using Cons.IH[of "step g e"] Cons.prems(1) by simp
qed

lemma refresh_cancels:
  assumes "ghostInv g" and "t \<in> set (pendingTimers g)"
  shows "t \<notin> set (pendingTimers (step g (Refresh ln cur)))"
proof -
  from assms have p: "pendingTimers g = [t]" "rootSuggestionTimer g = Some t" "t < nextTimer g"
    by (auto simp: ghostInv_def)
  let ?g = "g\<lparr>inputLine := ln, cursor := cur\<rparr>"
  have "pendingTimers ?g = [] \<or> (\<exists>t. pendingTimers ?g = [t] \<and> rootSuggestionTimer ?g = Some t)"
    using p by simp
  from refreshLine_cases[OF this] p(3) show ?thesis by auto
qed

lemma refresh_bare_prefix_rearms:
  assumes "ghostInv g" and "pendingTimers g \<noteq> []"
  shows "suggestion g = [] \<and> suggestion (step g (Refresh ''/'' 1)) = []
         \<and> pendingTimers (step g (Refresh ''/'' 1)) = [nextTimer g]"
  using assms by (auto simp: ghostInv_def refreshLine_def Let_def startsWith_def)

text \<open>
  C7, as amended. After any events from the start: at most one reveal timer is
  outstanding; a line refresh cancels the timer that was outstanding; while a timer is
  outstanding no suggestion is shown, and a refresh that finds the line still at the bare
  prefix with the cursor at its end shows none either and arms one new timer; and as long
  as no timer has fired, the bare prefix shows no suggestion. A refresh before the delay
  fires that finds a longer prefix is left out: it shows its completion at once.
\<close>

theorem debounce_bare_prefix:
  "length (pendingTimers (runEvents initialGhost es)) \<le> 1
   \<and> (\<forall>t \<in> set (pendingTimers (runEvents initialGhost es)).
         t \<notin> set (pendingTimers (step (runEvents initialGhost es) (Refresh ln cur))))
   \<and> (pendingTimers (runEvents initialGhost es) \<noteq> [] \<longrightarrow>
         suggestion (runEvents initialGhost es) = []
         \<and> suggestion (step (runEvents initialGhost es) (Refresh ''/'' 1)) = []
         \<and> length (pendingTimers (step (runEvents initialGhost es) (Refresh ''/'' 1))) = 1)
   \<and> ((\<forall>e \<in> set es. isRefresh e) \<and> inputLine (runEvents initialGhost es) = ''/'' \<longrightarrow>
         suggestion (runEvents initialGhost es) = [])"
proof -
  let ?g = "runEvents initialGhost es"
  have inv: "ghostInv ?g"
    by (simp add: ghostInv_runEvents ghostInv_initial)
  have 1: "length (pendingTimers ?g) \<le> 1"
    using inv by (auto simp: ghostInv_def)
  have 2: "\<forall>t \<in> set (pendingTimers ?g). t \<notin> set (pendingTimers (step ?g (Refresh ln cur)))"
    using refresh_cancels[OF inv] by blast
  have 3: "pendingTimers ?g \<noteq> [] \<longrightarrow>
         suggestion ?g = [] \<and> suggestion (step ?g (Refresh ''/'' 1)) = []
         \<and> length (pendingTimers (step ?g (Refresh ''/'' 1))) = 1"
    using refresh_bare_prefix_rearms[OF inv] by simp
  have 4: "(\<forall>e \<in> set es. isRefresh e) \<and> inputLine ?g = ''/'' \<longrightarrow> suggestion ?g = []"
    using refresh_only_quiet[of es initialGhost] by (simp add: initialGhost_def)
  from 1 2 3 4 show ?thesis by blast
qed

theorem debounce_bare_prefix_witness:
  "pendingTimers (runEvents initialGhost [Refresh ''/'' 1]) = [0]
   \<and> isRefresh (Refresh ''/'' 1)
   \<and> inputLine (runEvents initialGhost [Refresh ''/'' 1]) = ''/''
   \<and> 0 \<notin> set (pendingTimers (step (runEvents initialGhost [Refresh ''/'' 1]) (Refresh ''/h'' 2)))
   \<and> suggestion (runEvents initialGhost [Refresh ''/'' 1]) = []
   \<and> suggestion (step (runEvents initialGhost [Refresh ''/'' 1]) (Refresh ''/'' 1)) = []
   \<and> length (pendingTimers (step (runEvents initialGhost [Refresh ''/'' 1]) (Refresh ''/'' 1))) = 1"
proof -
  have p: "pendingTimers (runEvents initialGhost [Refresh ''/'' 1]) = [0]"
    by code_simp
  have r: "\<forall>e \<in> set [Refresh ''/'' 1]. isRefresh e"
    by simp
  have i: "inputLine (runEvents initialGhost [Refresh ''/'' 1]) = ''/''"
    by code_simp
  show ?thesis
    using p r i debounce_bare_prefix[of "[Refresh ''/'' 1]" "''/h''" 2]
    by auto
qed

text \<open>
  C7 as stated fails: with the timer of the bare prefix outstanding, the key \<open>h\<close> gives
  the line \<open>/h\<close>; the refresh cancels the timer, and shows the suggestion \<open>elp\<close> for that
  keystroke, before any delay has fired.
\<close>

theorem keystroke_before_delay_counterexample:
  "pendingTimers (runEvents initialGhost [Refresh ''/'' 1]) = [0]
   \<and> suggestion (step (runEvents initialGhost [Refresh ''/'' 1]) (Refresh ''/h'' 2)) = ''elp''
   \<and> pendingTimers (step (runEvents initialGhost [Refresh ''/'' 1]) (Refresh ''/h'' 2)) = []"
  by code_simp

end
